theory Spec2Isabelle
  imports Main "HOL-Library.Word" "HOL-Library.Sublist"
begin

section \<open>Common types\<close>

type_synonym byte = "8 word"

type_synonym uint64 = "64 word"

text \<open>
  A Go call either returns or panics.  Functions of the source that can panic
  (an explicit \<^verbatim>\<open>panic\<close> or an index out of range) return an \<open>outcome\<close>;
  functions that report failure through an \<^verbatim>\<open>error\<close> value return a sum
  whose left injection carries the error message.
\<close>

datatype 'a outcome = Returned 'a | Panicked string

section \<open>Fork manager (forkmanager/fork.go)\<close>

subsection \<open>Data\<close>

type_synonym ForkName = string

type_synonym ForkHandlerName = string

definition BaseFork :: ForkName where
  "BaseFork = ''basev1''"

definition LondonFork :: ForkName where
  "LondonFork = ''london''"

definition NikaragvaFork :: ForkName where
  "NikaragvaFork = ''nikaragva''"

record Fork =
  Name :: ForkName
  FromBlockNumber :: uint64

text \<open>
  The handler of a \<^verbatim>\<open>ForkHandler\<close> is an \<^verbatim>\<open>interface{}\<close>: \<open>None\<close> is the nil
  interface, which is also the handler of the zero value \<^verbatim>\<open>ForkHandler{}\<close>.
  The height field of the handler record is called \<open>HandlerFromBlockNumber\<close>
  to keep it apart from the field of \<open>Fork\<close>.
\<close>

record 'h ForkHandler =
  HandlerFromBlockNumber :: uint64
  Handler :: "'h option"

record 'h forkManager =
  forkMap :: "ForkName \<rightharpoonup> Fork"
  forks :: "Fork list"
  handlersMap :: "ForkHandlerName \<rightharpoonup> 'h ForkHandler list"

definition zeroFork :: Fork where
  "zeroFork = \<lparr>Name = [], FromBlockNumber = 0\<rparr>"

definition zeroForkHandler :: "'h ForkHandler" where
  "zeroForkHandler = \<lparr>HandlerFromBlockNumber = 0, Handler = None\<rparr>"

subsection \<open>Go's sort.Search and slice insertion\<close>

text \<open>
  \<^verbatim>\<open>sort.Search(n, f)\<close> of the Go standard library is the binary search
  \<^verbatim>\<open>i, j := 0, n; for i < j { h := (i+j)/2; if !f(h) { i = h+1 } else { j = h } }; return i\<close>.
\<close>

function Search_loop :: "(nat \<Rightarrow> bool) \<Rightarrow> nat \<Rightarrow> nat \<Rightarrow> nat" where
  "Search_loop f i j =
     (if i < j then
        (let h = (i + j) div 2
         in if \<not> f h then Search_loop f (h + 1) j else Search_loop f i h)
      else i)"
  by pat_completeness auto

termination
  by (relation "measure (\<lambda>(f, i, j). j - i)") auto

declare Search_loop.simps [simp del]

definition Search :: "nat \<Rightarrow> (nat \<Rightarrow> bool) \<Rightarrow> nat" where
  "Search n f = Search_loop f 0 n"

text \<open>
  \<^verbatim>\<open>copy(dst, src)\<close> overwrites the first \<open>min (len dst) (len src)\<close> elements of
  \<open>dst\<close>; the result is the new content of \<open>dst\<close>.
\<close>

definition copy_slice :: "'a list \<Rightarrow> 'a list \<Rightarrow> 'a list" where
  "copy_slice dst src = take (length dst) src @ drop (length src) dst"

text \<open>
  The insertion idiom of both registration functions:
  \<^verbatim>\<open>s = append(s, zero); copy(s[index+1:], s[index:]); s[index] = x\<close>.
\<close>

definition insert_at :: "nat \<Rightarrow> 'a \<Rightarrow> 'a \<Rightarrow> 'a list \<Rightarrow> 'a list" where
  "insert_at index x zero s =
     (let s1 = s @ [zero];
          s2 = take (index + 1) s1 @ copy_slice (drop (index + 1) s1) (drop index s1)
      in s2[index := x])"

subsection \<open>Operations\<close>

definition GetInstance :: "'h forkManager" where
  "GetInstance =
     (let fork = \<lparr>Name = BaseFork, FromBlockNumber = 0\<rparr>
      in \<lparr>forkMap = [Name fork \<mapsto> fork], forks = [fork], handlersMap = Map.empty\<rparr>)"

definition RegisterFork :: "'h forkManager \<Rightarrow> ForkName \<Rightarrow> uint64 \<Rightarrow> 'h forkManager" where
  "RegisterFork fm name fromBlock =
     (let fork = \<lparr>Name = name, FromBlockNumber = fromBlock\<rparr>;
          fm1 = fm\<lparr>forkMap := (forkMap fm)(name \<mapsto> fork)\<rparr>
      in if length (forks fm1) = 0 then fm1\<lparr>forks := forks fm1 @ [fork]\<rparr>
         else
           (let index = Search (length (forks fm1))
                          (\<lambda>i. FromBlockNumber (forks fm1 ! i) \<ge> fromBlock)
            in fm1\<lparr>forks := insert_at index fork zeroFork (forks fm1)\<rparr>))"

definition RegisterHandler ::
  "'h forkManager \<Rightarrow> ForkName \<Rightarrow> ForkHandlerName \<Rightarrow> 'h option \<Rightarrow> string + 'h forkManager" where
  "RegisterHandler fm forkName handlerName handler =
     (case forkMap fm forkName of
        None \<Rightarrow> Inl (''fork does not exist: '' @ forkName)
      | Some fork \<Rightarrow>
          (case handlersMap fm handlerName of
             None \<Rightarrow>
               Inr (fm\<lparr>handlersMap := (handlersMap fm)(handlerName \<mapsto>
                      [\<lparr>HandlerFromBlockNumber = FromBlockNumber fork, Handler = handler\<rparr>])\<rparr>)
           | Some handlers \<Rightarrow>
               (let index = Search (length handlers)
                              (\<lambda>i. HandlerFromBlockNumber (handlers ! i) \<ge> FromBlockNumber fork);
                    handlers1 = insert_at index
                      \<lparr>HandlerFromBlockNumber = FromBlockNumber fork, Handler = handler\<rparr>
                      zeroForkHandler handlers
                in Inr (fm\<lparr>handlersMap := (handlersMap fm)(handlerName \<mapsto> handlers1)\<rparr>))))"

text \<open>
  \<^verbatim>\<open>GetHandler\<close> panics explicitly when the capability has no table, and the
  index expression \<^verbatim>\<open>handlers[pos]\<close> panics when \<open>pos\<close> is \<open>-1\<close>.
\<close>

definition GetHandler ::
  "'h forkManager \<Rightarrow> ForkHandlerName \<Rightarrow> uint64 \<Rightarrow> 'h option outcome" where
  "GetHandler fm name blockNumber =
     (case handlersMap fm name of
        None \<Rightarrow> Panicked (''handlers not registered for '' @ name)
      | Some handlers \<Rightarrow>
          (let pos = int (Search (length handlers)
                            (\<lambda>i. blockNumber < HandlerFromBlockNumber (handlers ! i))) - 1
           in if 0 \<le> pos \<and> pos < int (length handlers)
              then Returned (Handler (handlers ! nat pos))
              else Panicked ''index out of range''))"

definition IsForkSupported :: "'h forkManager \<Rightarrow> ForkName \<Rightarrow> bool" where
  "IsForkSupported fm name = (forkMap fm name \<noteq> None)"

definition IsForkEnabled :: "'h forkManager \<Rightarrow> ForkName \<Rightarrow> uint64 \<Rightarrow> bool" where
  "IsForkEnabled fm name blockNumber =
     (case forkMap fm name of
        None \<Rightarrow> False
      | Some fork \<Rightarrow> FromBlockNumber fork \<le> blockNumber)"

definition GetForkBlock :: "'h forkManager \<Rightarrow> ForkName \<Rightarrow> string + uint64" where
  "GetForkBlock fm name =
     (case forkMap fm name of
        None \<Rightarrow> Inl (''fork does not exists: '' @ name)
      | Some fork \<Rightarrow> Inr (FromBlockNumber fork))"

text \<open>
  A start-up sequence is a list of registrations applied to the initial
  registry; a failed \<^verbatim>\<open>RegisterHandler\<close> leaves the registry as it was.
\<close>

datatype 'h registration =
  RegFork ForkName uint64
| RegHandler ForkName ForkHandlerName "'h option"

fun register :: "'h forkManager \<Rightarrow> 'h registration \<Rightarrow> 'h forkManager" where
  "register fm (RegFork name fromBlock) = RegisterFork fm name fromBlock"
| "register fm (RegHandler forkName handlerName handler) =
     (case RegisterHandler fm forkName handlerName handler of
        Inl e \<Rightarrow> fm
      | Inr fm1 \<Rightarrow> fm1)"

definition startup :: "'h registration list \<Rightarrow> 'h forkManager" where
  "startup rs = foldl register GetInstance rs"

text \<open>
  The ordering invariant of the registry: the fork list and every handler
  table are ascending in the activation height, and no table is empty.
\<close>

definition registry_sorted :: "'h forkManager \<Rightarrow> bool" where
  "registry_sorted fm \<longleftrightarrow>
     sorted (map FromBlockNumber (forks fm)) \<and>
     (\<forall>name handlers. handlersMap fm name = Some handlers \<longrightarrow>
        handlers \<noteq> [] \<and> sorted (map HandlerFromBlockNumber handlers))"

text \<open>
  The start-up sequence of the fork-ordering test: forks at heights 100, 50
  and 200 are registered in this order, then one capability gets a handler
  for the base fork and for each of the three forks.
\<close>

definition fork_order_startup :: "'h \<Rightarrow> 'h \<Rightarrow> 'h \<Rightarrow> 'h \<Rightarrow> 'h registration list" where
  "fork_order_startup hb h100 h50 h200 =
     [RegFork ''f100'' 100, RegFork ''f50'' 50, RegFork ''f200'' 200,
      RegHandler BaseFork ''cap'' (Some hb),
      RegHandler ''f100'' ''cap'' (Some h100),
      RegHandler ''f50'' ''cap'' (Some h50),
      RegHandler ''f200'' ''cap'' (Some h200)]"

section \<open>Formatting of numbers in messages\<close>

text \<open>The verb \<^verbatim>\<open>%d\<close> of Go's \<^verbatim>\<open>fmt\<close> on a non-negative integer.\<close>

definition digit :: "nat \<Rightarrow> char" where
  "digit d = ''0123456789'' ! d"

function decimal :: "nat \<Rightarrow> string" where
  "decimal n = (if n < 10 then [digit n] else decimal (n div 10) @ [digit (n mod 10)])"
  by pat_completeness auto

termination
  by (relation "measure id") auto

declare decimal.simps [simp del]

section \<open>The element tree of the RLP parser (github.com/umbracle/fastrlp)\<close>

text \<open>
  The decoders of the repository read a parsed element tree through the
  accessors of the fastrlp library.  A parsed value is a byte string or an
  array of values; the two null kinds of the library are built by its
  encoder only and never by its parser.  The accessors are modelled after the
  library: each one checks the kind of the value, the sized ones also its
  length.
\<close>

datatype Value = Bytes "byte list" | Array "Value list"

datatype ValueType = TypeArray | TypeBytes

fun Type :: "Value \<Rightarrow> ValueType" where
  "Type (Bytes b) = TypeBytes"
| "Type (Array a) = TypeArray"

definition errNoBytes :: string where
  "errNoBytes = ''value is not of type bytes''"

definition errNoArray :: string where
  "errNoArray = ''value is not of type array''"

fun GetElems :: "Value \<Rightarrow> string + Value list" where
  "GetElems (Array a) = Inr a"
| "GetElems (Bytes b) = Inl errNoArray"

text \<open>\<^verbatim>\<open>v.Bytes()\<close>\<close>

fun ValueBytes :: "Value \<Rightarrow> string + byte list" where
  "ValueBytes (Bytes b) = Inr b"
| "ValueBytes (Array a) = Inl errNoBytes"

text \<open>
  \<^verbatim>\<open>append(dst[:0], b...)\<close> writes \<open>b\<close> into the array under \<open>dst\<close> when the
  capacity suffices and allocates otherwise.  \<open>backing\<close> is that array from
  the start of \<open>dst\<close> (its length is the capacity of \<open>dst\<close>); the result is
  its content afterwards.
\<close>

definition append_into :: "byte list \<Rightarrow> byte list \<Rightarrow> byte list" where
  "append_into backing b =
     (if length b \<le> length backing then b @ drop (length b) backing else backing)"

text \<open>
  \<^verbatim>\<open>v.GetBytes(dst, bits...)\<close> returns the slice it built and, as a side
  effect, may write into the array under \<open>dst\<close>: the result is the pair of
  the returned slice and the content of that array.
\<close>

fun GetBytes :: "Value \<Rightarrow> byte list \<Rightarrow> nat option \<Rightarrow> string + (byte list \<times> byte list)" where
  "GetBytes (Array a) backing bits = Inl errNoBytes"
| "GetBytes (Bytes b) backing None = Inr (b, append_into backing b)"
| "GetBytes (Bytes b) backing (Some n) =
     (if length b \<noteq> n
      then Inl (''bad length, expected '' @ decimal n @ '' but found '' @ decimal (length b))
      else Inr (b, append_into backing b))"

text \<open>
  \<^verbatim>\<open>v.GetHash(buf)\<close> and \<^verbatim>\<open>v.GetAddr(buf)\<close> are \<^verbatim>\<open>v.GetBytes(buf, 32)\<close> and
  \<^verbatim>\<open>v.GetBytes(buf, 20)\<close> with the returned slice dropped: what remains is
  the content of the array under \<open>buf\<close>.
\<close>

definition GetHash :: "Value \<Rightarrow> byte list \<Rightarrow> string + byte list" where
  "GetHash v buf = (case GetBytes v buf (Some 32) of Inl e \<Rightarrow> Inl e | Inr (s, backing) \<Rightarrow> Inr backing)"

definition GetAddr :: "Value \<Rightarrow> byte list \<Rightarrow> string + byte list" where
  "GetAddr v buf = (case GetBytes v buf (Some 20) of Inl e \<Rightarrow> Inl e | Inr (s, backing) \<Rightarrow> Inr backing)"

text \<open>Big-endian bytes as a number.\<close>

definition be_nat :: "byte list \<Rightarrow> nat" where
  "be_nat bs = foldl (\<lambda>a b. a * 256 + unat b) 0 bs"

text \<open>
  \<^verbatim>\<open>v.GetUint64()\<close> pads at most eight bytes on the left with zeros and
  reads them as a big-endian 64-bit number.
\<close>

fun GetUint64 :: "Value \<Rightarrow> string + uint64" where
  "GetUint64 (Array a) = Inl errNoBytes"
| "GetUint64 (Bytes b) =
     (if length b > 8 then Inl (''bytes '' @ decimal (length b) @ '' too long for uint64'')
      else Inr (of_nat (be_nat (replicate (8 - length b) 0 @ b))))"

text \<open>\<^verbatim>\<open>v.GetBigInt(b)\<close> sets the big integer from big-endian bytes.\<close>

fun GetBigInt :: "Value \<Rightarrow> string + nat" where
  "GetBigInt (Array a) = Inl errNoBytes"
| "GetBigInt (Bytes b) = Inr (be_nat b)"

text \<open>Sequencing of calls that return \<^verbatim>\<open>(value, error)\<close>.\<close>

fun and_then :: "'e + 'a \<Rightarrow> ('a \<Rightarrow> 'e + 'b) \<Rightarrow> 'e + 'b" where
  "and_then (Inl e) f = Inl e"
| "and_then (Inr x) f = f x"

section \<open>Chain objects (package types) and their decoders\<close>

subsection \<open>Header\<close>

text \<open>
  \<^verbatim>\<open>Hash\<close>, \<^verbatim>\<open>Address\<close>, \<^verbatim>\<open>Bloom\<close> and \<^verbatim>\<open>Nonce\<close> are byte arrays of 32, 20,
  256 and 8 bytes: byte lists here, with the lengths stated by \<open>wf_Header\<close>.
  The struct declarations are not among the sources; the fields are those the
  decoders assign, with the widths of section 3 of the specification.
\<close>

type_synonym Hash = "byte list"

type_synonym Address = "byte list"

record Header =
  ParentHash :: Hash
  Sha3Uncles :: Hash
  Miner :: Address
  StateRoot :: Hash
  TxRoot :: Hash
  ReceiptsRoot :: Hash
  LogsBloom :: "byte list"
  Difficulty :: uint64
  Number :: uint64
  GasLimit :: uint64
  GasUsed :: uint64
  Timestamp :: uint64
  ExtraData :: "byte list"
  MixHash :: Hash
  Nonce :: "byte list"
  Hash :: Hash

definition wf_Header :: "Header \<Rightarrow> bool" where
  "wf_Header h \<longleftrightarrow>
     length (ParentHash h) = 32 \<and> length (Sha3Uncles h) = 32 \<and> length (Miner h) = 20 \<and>
     length (StateRoot h) = 32 \<and> length (TxRoot h) = 32 \<and> length (ReceiptsRoot h) = 32 \<and>
     length (LogsBloom h) = 256 \<and> length (MixHash h) = 32 \<and> length (Nonce h) = 8 \<and>
     length (Hash h) = 32"

text \<open>The zero value \<^verbatim>\<open>Header{}\<close>.\<close>

definition zeroHeader :: Header where
  "zeroHeader =
     \<lparr>ParentHash = replicate 32 0, Sha3Uncles = replicate 32 0, Miner = replicate 20 0,
      StateRoot = replicate 32 0, TxRoot = replicate 32 0, ReceiptsRoot = replicate 32 0,
      LogsBloom = replicate 256 0, Difficulty = 0, Number = 0, GasLimit = 0, GasUsed = 0,
      Timestamp = 0, ExtraData = [], MixHash = replicate 32 0, Nonce = replicate 8 0,
      Hash = replicate 32 0\<rparr>"

text \<open>
  Modelled from the spec: the canonical encoding of unsigned integers (the
  encoder is not among the sources).  An integer is a big-endian byte string
  of minimal length without a leading zero byte; the empty string is zero.
\<close>

function uint_bytes :: "nat \<Rightarrow> byte list" where
  "uint_bytes n = (if n = 0 then [] else uint_bytes (n div 256) @ [of_nat (n mod 256)])"
  by pat_completeness auto

termination
  by (relation "measure id") auto

declare uint_bytes.simps [simp del]

text \<open>
  Modelled from the spec: the header encoder \<^verbatim>\<open>Header.MarshalRLPWith\<close> (not
  among the sources).  A header is a list of fifteen atoms in the order of the
  data model: parent hash, uncle hash, miner, state root, transaction root,
  receipt root, logs bloom, difficulty, number, gas limit, gas used,
  timestamp, extra data, mix hash and the nonce carried as its 8 bytes.
\<close>

definition Header_MarshalRLPWith :: "Header \<Rightarrow> Value" where
  "Header_MarshalRLPWith h =
     Array [Bytes (ParentHash h), Bytes (Sha3Uncles h), Bytes (Miner h), Bytes (StateRoot h),
            Bytes (TxRoot h), Bytes (ReceiptsRoot h), Bytes (LogsBloom h),
            Bytes (uint_bytes (unat (Difficulty h))), Bytes (uint_bytes (unat (Number h))),
            Bytes (uint_bytes (unat (GasLimit h))), Bytes (uint_bytes (unat (GasUsed h))),
            Bytes (uint_bytes (unat (Timestamp h))),
            Bytes (ExtraData h), Bytes (MixHash h), Bytes (Nonce h)]"

text \<open>
  Modelled from the spec: \<^verbatim>\<open>Header.ComputeHash\<close> (not among the sources) stores
  the hash of the header's canonical encoding in the cached hash.  The hash
  function itself is a parameter \<open>keccak\<close> on element trees.
\<close>

definition ComputeHash :: "(Value \<Rightarrow> Hash) \<Rightarrow> Header \<Rightarrow> Header" where
  "ComputeHash keccak h = h\<lparr>Hash := keccak (Header_MarshalRLPWith h)\<rparr>"

text \<open>
  Modelled from the spec: \<^verbatim>\<open>Header.SetNonce\<close> (not among the sources) stores a
  64-bit number as the 8 bytes of the nonce, most significant byte first.
\<close>

definition PutUint64 :: "uint64 \<Rightarrow> byte list" where
  "PutUint64 w = map (\<lambda>i. of_nat (unat w div 256 ^ (7 - i) mod 256)) [0..<8]"

definition SetNonce :: "Header \<Rightarrow> uint64 \<Rightarrow> Header" where
  "SetNonce h i = h\<lparr>Nonce := PutUint64 i\<rparr>"

text \<open>
  \<^verbatim>\<open>Header.UnmarshalRLPFrom\<close>.  The receiver is updated field by field; an
  error leaves the decoder at once.  The fixed-size fields are written through
  slices of the receiver's arrays (\<^verbatim>\<open>h.ParentHash[:]\<close>, \<^verbatim>\<open>h.LogsBloom[:0]\<close>,
  \<^verbatim>\<open>h.MixHash[:0]\<close>): the array is the capacity of each of these slices.
\<close>

definition Header_fields :: "(Value \<Rightarrow> Hash) \<Rightarrow> Header \<Rightarrow> Value list \<Rightarrow> string + Header" where
  "Header_fields keccak h elems =
     and_then (GetHash (elems ! 0) (ParentHash h)) (\<lambda>parentHash.
     and_then (GetHash (elems ! 1) (Sha3Uncles h)) (\<lambda>sha3Uncles.
     and_then (GetAddr (elems ! 2) (Miner h)) (\<lambda>miner.
     and_then (GetHash (elems ! 3) (StateRoot h)) (\<lambda>stateRoot.
     and_then (GetHash (elems ! 4) (TxRoot h)) (\<lambda>txRoot.
     and_then (GetHash (elems ! 5) (ReceiptsRoot h)) (\<lambda>receiptsRoot.
     and_then (GetBytes (elems ! 6) (LogsBloom h) (Some 256)) (\<lambda>(s, logsBloom).
     and_then (GetUint64 (elems ! 7)) (\<lambda>difficulty.
     and_then (GetUint64 (elems ! 8)) (\<lambda>number.
     and_then (GetUint64 (elems ! 9)) (\<lambda>gasLimit.
     and_then (GetUint64 (elems ! 10)) (\<lambda>gasUsed.
     and_then (GetUint64 (elems ! 11)) (\<lambda>timestamp.
     and_then (GetBytes (elems ! 12) (ExtraData h) None) (\<lambda>(extraData, b).
     and_then (GetHash (elems ! 13) (MixHash h)) (\<lambda>mixHash.
     and_then (GetUint64 (elems ! 14)) (\<lambda>nonce.
       Inr (ComputeHash keccak (SetNonce
              (h\<lparr>ParentHash := parentHash, Sha3Uncles := sha3Uncles, Miner := miner,
                 StateRoot := stateRoot, TxRoot := txRoot, ReceiptsRoot := receiptsRoot,
                 LogsBloom := logsBloom, Difficulty := difficulty, Number := number,
                 GasLimit := gasLimit, GasUsed := gasUsed, Timestamp := timestamp,
                 ExtraData := extraData, MixHash := mixHash\<rparr>) nonce)))))))))))))))))"

definition Header_UnmarshalRLPFrom :: "(Value \<Rightarrow> Hash) \<Rightarrow> Header \<Rightarrow> Value \<Rightarrow> string + Header" where
  "Header_UnmarshalRLPFrom keccak h v =
     (case GetElems v of
        Inl err \<Rightarrow> Inl err
      | Inr elems \<Rightarrow>
          if length elems \<noteq> 15
          then Inl (''not enough elements to decode header, expected 15 but found ''
                    @ decimal (length elems))
          else Header_fields keccak h elems)"

subsection \<open>Log and Receipt\<close>

record Log =
  Address :: Address
  Topics :: "Hash list"
  Data :: "byte list"

definition zeroLog :: Log where
  "zeroLog = \<lparr>Address = replicate 20 0, Topics = [], Data = []\<rparr>"

text \<open>
  The topics are decoded into a fresh slice of zero hashes
  (\<^verbatim>\<open>make([]Hash, len(topicElems))\<close>), one \<^verbatim>\<open>GetHash\<close> per element.
\<close>

fun Log_topics :: "Value list \<Rightarrow> string + Hash list" where
  "Log_topics [] = Inr []"
| "Log_topics (topic # topicElems) =
     and_then (GetHash topic (replicate 32 0)) (\<lambda>t.
     and_then (Log_topics topicElems) (\<lambda>ts. Inr (t # ts)))"

definition Log_UnmarshalRLPFrom :: "Log \<Rightarrow> Value \<Rightarrow> string + Log" where
  "Log_UnmarshalRLPFrom l v =
     (case GetElems v of
        Inl err \<Rightarrow> Inl err
      | Inr elems \<Rightarrow>
          if length elems \<noteq> 3 then Inl ''bad elems''
          else
            and_then (GetAddr (elems ! 0) (Address l)) (\<lambda>address.
            and_then (GetElems (elems ! 1)) (\<lambda>topicElems.
            and_then (Log_topics topicElems) (\<lambda>topics.
            and_then (GetBytes (elems ! 2) (Data l) None) (\<lambda>(data, b).
              Inr (l\<lparr>Address := address, Topics := topics, Data := data\<rparr>))))))"

type_synonym TransactionType = byte

text \<open>
  Modelled from the spec: the type \<^verbatim>\<open>ReceiptStatus\<close> and the receipt struct
  (their declarations are not among the sources).  The status is a single
  byte; the receipt holds it behind a pointer, \<open>None\<close> while no status was
  set.  The fields are those the decoders assign; the bloom field
  \<^verbatim>\<open>LogsBloom\<close> is called \<open>ReceiptLogsBloom\<close> to keep it apart from the
  header's.
\<close>

type_synonym ReceiptStatus = byte

record Receipt =
  Root :: Hash
  CumulativeGasUsed :: uint64
  ReceiptLogsBloom :: "byte list"
  Logs :: "Log list"
  Status :: "ReceiptStatus option"
  TransactionType :: TransactionType

definition zeroReceipt :: Receipt where
  "zeroReceipt =
     \<lparr>Root = replicate 32 0, CumulativeGasUsed = 0, ReceiptLogsBloom = replicate 256 0,
      Logs = [], Status = None, TransactionType = 0\<rparr>"

text \<open>
  Modelled from the spec: \<^verbatim>\<open>Receipt.SetStatus\<close> (not among the sources) stores
  the status outcome of the receipt.
\<close>

definition SetStatus :: "Receipt \<Rightarrow> ReceiptStatus \<Rightarrow> Receipt" where
  "SetStatus r s = r\<lparr>Status := Some s\<rparr>"

text \<open>The loop over the log elements appends each decoded log to \<^verbatim>\<open>r.Logs\<close>.\<close>

fun Receipt_logs :: "Value list \<Rightarrow> Log list \<Rightarrow> string + Log list" where
  "Receipt_logs [] logs = Inr logs"
| "Receipt_logs (elem # logsElems) logs =
     and_then (Log_UnmarshalRLPFrom zeroLog elem) (\<lambda>log.
       Receipt_logs logsElems (logs @ [log]))"

text \<open>The switch on the size of the first field.\<close>

definition Receipt_root_or_status :: "Receipt \<Rightarrow> byte list \<Rightarrow> Receipt" where
  "Receipt_root_or_status r buf =
     (if length buf = 32 then r\<lparr>Root := copy_slice (Root r) buf\<rparr>
      else if length buf = 1 then SetStatus r (buf ! 0)
      else SetStatus r 0)"

text \<open>
  The fields after the first one.  \<^verbatim>\<open>v.Get(3)\<close> is the fourth element: the
  arity was checked before.
\<close>

definition Receipt_rest :: "Receipt \<Rightarrow> Value list \<Rightarrow> string + Receipt" where
  "Receipt_rest r elems =
     and_then (GetUint64 (elems ! 1)) (\<lambda>cumulativeGasUsed.
     and_then (GetBytes (elems ! 2) (ReceiptLogsBloom r) (Some 256)) (\<lambda>(s, logsBloom).
     and_then (GetElems (elems ! 3)) (\<lambda>logsElems.
     and_then (Receipt_logs logsElems (Logs r)) (\<lambda>logs.
       Inr (r\<lparr>CumulativeGasUsed := cumulativeGasUsed, ReceiptLogsBloom := logsBloom,
              Logs := logs\<rparr>)))))"

definition Receipt_UnmarshalRLPFrom :: "Receipt \<Rightarrow> Value \<Rightarrow> string + Receipt" where
  "Receipt_UnmarshalRLPFrom r v =
     (case GetElems v of
        Inl err \<Rightarrow> Inl err
      | Inr elems \<Rightarrow>
          if length elems \<noteq> 4 then Inl ''expected 4 elements''
          else
            and_then (ValueBytes (elems ! 0)) (\<lambda>buf.
              Receipt_rest (Receipt_root_or_status r buf) elems))"

subsection \<open>Transactions\<close>

text \<open>
  Modelled from the spec: the transaction kinds and the helpers
  \<^verbatim>\<open>ToTransactionType\<close> and \<^verbatim>\<open>newTxPayload\<close> (the constants and both helpers
  are not among the sources).  There are two kinds, legacy and typed
  ("state"); the typed kind is tagged with the byte \<open>0x02\<close> of the
  specification's example stream, the legacy kind is the zero value.  A byte
  that is no kind is an error; each kind has its own payload struct.
\<close>

definition TxTypeLegacy :: TransactionType where
  "TxTypeLegacy = 0"

definition TxTypeState :: TransactionType where
  "TxTypeState = 2"

definition ToTransactionType :: "byte \<Rightarrow> string + TransactionType" where
  "ToTransactionType b =
     (if b \<noteq> TxTypeLegacy \<and> b \<noteq> TxTypeState
      then Inl (''unknown transaction type: '' @ decimal (unat b))
      else Inr b)"

text \<open>
  \<^verbatim>\<open>TransactionType.UnmarshalRLPFrom\<close>: the value has to be a byte string of
  length one that names a kind.
\<close>

definition TransactionType_UnmarshalRLPFrom :: "Value \<Rightarrow> string + TransactionType" where
  "TransactionType_UnmarshalRLPFrom v =
     and_then (ValueBytes v) (\<lambda>bytes.
       if length bytes \<noteq> 1
       then Inl (''expected 1 byte transaction type, but size is '' @ decimal (length bytes))
       else ToTransactionType (bytes ! 0))"

text \<open>
  The payload structs; \<^verbatim>\<open>*big.Int\<close> and \<^verbatim>\<open>*Address\<close> fields are pointers,
  \<open>None\<close> when nil.  The fields carry the prefix of their struct, since both
  structs and the header have a \<^verbatim>\<open>Nonce\<close>.
\<close>

record LegacyTransaction =
  legacy_Nonce :: uint64
  legacy_GasPrice :: "nat option"
  legacy_Gas :: uint64
  legacy_To :: "Address option"
  legacy_Value :: "nat option"
  legacy_Input :: "byte list"
  legacy_V :: "nat option"
  legacy_R :: "nat option"
  legacy_S :: "nat option"

record StateTransaction =
  state_Nonce :: uint64
  state_To :: "Address option"
  state_Input :: "byte list"
  state_Signatures :: "byte list list"
  state_V :: "nat option"
  state_R :: "nat option"
  state_S :: "nat option"

definition zeroLegacyTransaction :: LegacyTransaction where
  "zeroLegacyTransaction =
     \<lparr>legacy_Nonce = 0, legacy_GasPrice = None, legacy_Gas = 0, legacy_To = None,
      legacy_Value = None, legacy_Input = [], legacy_V = None, legacy_R = None,
      legacy_S = None\<rparr>"

definition zeroStateTransaction :: StateTransaction where
  "zeroStateTransaction =
     \<lparr>state_Nonce = 0, state_To = None, state_Input = [], state_Signatures = [],
      state_V = None, state_R = None, state_S = None\<rparr>"

text \<open>
  The recipient: \<^verbatim>\<open>v.Get(i).Bytes()\<close> with its error dropped; exactly 20 bytes
  are an address, anything else resets the recipient.
\<close>

definition recipient :: "Value \<Rightarrow> Address option" where
  "recipient e =
     (let vv = (case ValueBytes e of Inl err \<Rightarrow> [] | Inr b \<Rightarrow> b)
      in if length vv = 20 then Some vv else None)"

definition LegacyTransaction_UnmarshalRLPFrom ::
  "LegacyTransaction \<Rightarrow> Value \<Rightarrow> string + LegacyTransaction" where
  "LegacyTransaction_UnmarshalRLPFrom t v =
     (case GetElems v of
        Inl err \<Rightarrow> Inl err
      | Inr elems \<Rightarrow>
          if length elems \<noteq> 9
          then Inl (''not enough elements to decode transaction, expected 9 but found ''
                    @ decimal (length elems))
          else
            and_then (GetUint64 (elems ! 0)) (\<lambda>nonce.
            and_then (GetBigInt (elems ! 1)) (\<lambda>gasPrice.
            and_then (GetUint64 (elems ! 2)) (\<lambda>gas.
            and_then (GetBigInt (elems ! 4)) (\<lambda>val.
            and_then (GetBytes (elems ! 5) (legacy_Input t) None) (\<lambda>(input, b).
            and_then (GetBigInt (elems ! 6)) (\<lambda>v.
            and_then (GetBigInt (elems ! 7)) (\<lambda>r.
            and_then (GetBigInt (elems ! 8)) (\<lambda>s.
              Inr \<lparr>legacy_Nonce = nonce, legacy_GasPrice = Some gasPrice, legacy_Gas = gas,
                   legacy_To = recipient (elems ! 3), legacy_Value = Some val,
                   legacy_Input = input, legacy_V = Some v, legacy_R = Some r,
                   legacy_S = Some s\<rparr>)))))))))"

fun State_signatures :: "Value list \<Rightarrow> string + byte list list" where
  "State_signatures [] = Inr []"
| "State_signatures (e # sigElems) =
     and_then (GetBytes e [] None) (\<lambda>(sig, b).
     and_then (State_signatures sigElems) (\<lambda>sigs. Inr (sig # sigs)))"

definition StateTransaction_UnmarshalRLPFrom ::
  "StateTransaction \<Rightarrow> Value \<Rightarrow> string + StateTransaction" where
  "StateTransaction_UnmarshalRLPFrom t v =
     (case GetElems v of
        Inl err \<Rightarrow> Inl err
      | Inr elems \<Rightarrow>
          if length elems \<noteq> 7
          then Inl (''not enough elements to decode transaction, expected 7 but found ''
                    @ decimal (length elems))
          else
            and_then (GetUint64 (elems ! 0)) (\<lambda>nonce.
            and_then (GetBytes (elems ! 2) (state_Input t) None) (\<lambda>(input, b).
            and_then (GetElems (elems ! 3)) (\<lambda>sigElems.
            and_then (State_signatures sigElems) (\<lambda>signatures.
            and_then (GetBigInt (elems ! 4)) (\<lambda>v.
            and_then (GetBigInt (elems ! 5)) (\<lambda>r.
            and_then (GetBigInt (elems ! 6)) (\<lambda>s.
              Inr \<lparr>state_Nonce = nonce, state_To = recipient (elems ! 1), state_Input = input,
                   state_Signatures = signatures, state_V = Some v, state_R = Some r,
                   state_S = Some s\<rparr>))))))))"

text \<open>
  Modelled from the spec: the payload interface \<^verbatim>\<open>TxPayload\<close>, the constructor
  \<^verbatim>\<open>newTxPayload\<close>, the transaction struct and \<^verbatim>\<open>Transaction.ComputeHash\<close>
  (none of them among the sources).  A transaction is a tagged union of the
  two payload structs together with its cached hash; the hash function over
  the type-tagged payload is a parameter \<open>txHash\<close>.
\<close>

datatype TxPayload = Legacy LegacyTransaction | State StateTransaction

record Transaction =
  Payload :: TxPayload
  TxHash :: Hash

definition newTxPayload :: "TransactionType \<Rightarrow> string + TxPayload" where
  "newTxPayload txType =
     (if txType = TxTypeLegacy then Inr (Legacy zeroLegacyTransaction)
      else if txType = TxTypeState then Inr (State zeroStateTransaction)
      else Inl (''unsupported transaction type: '' @ decimal (unat txType)))"

fun payloadType :: "TxPayload \<Rightarrow> TransactionType" where
  "payloadType (Legacy t) = TxTypeLegacy"
| "payloadType (State t) = TxTypeState"

fun Payload_UnmarshalRLPFrom :: "TxPayload \<Rightarrow> Value \<Rightarrow> string + TxPayload" where
  "Payload_UnmarshalRLPFrom (Legacy t) v =
     and_then (LegacyTransaction_UnmarshalRLPFrom t v) (\<lambda>t1. Inr (Legacy t1))"
| "Payload_UnmarshalRLPFrom (State t) v =
     and_then (StateTransaction_UnmarshalRLPFrom t v) (\<lambda>t1. Inr (State t1))"

definition Transaction_ComputeHash :: "(TxPayload \<Rightarrow> Hash) \<Rightarrow> TxPayload \<Rightarrow> Transaction" where
  "Transaction_ComputeHash txHash payload = \<lparr>Payload = payload, TxHash = txHash payload\<rparr>"

text \<open>
  The head of both collection loops: a byte string at position \<open>i\<close> is read
  as the type tag and the index moves on; a list leaves the legacy type and
  the index as they are.
\<close>

definition read_type_tag :: "Value list \<Rightarrow> nat \<Rightarrow> string + (TransactionType \<times> nat)" where
  "read_type_tag elems i =
     (if Type (elems ! i) = TypeBytes
      then (case TransactionType_UnmarshalRLPFrom (elems ! i) of
              Inl err \<Rightarrow> Inl err
            | Inr txType \<Rightarrow> Inr (txType, i + 1))
      else Inr (TxTypeLegacy, i))"

text \<open>
  \<^verbatim>\<open>Transactions.UnmarshalRLPFrom\<close>: the loop over the indices of the stream.
  After a type tag the payload is read at the next index without a check of
  the bounds, where Go panics when the index is the length of the slice.
\<close>

function Transactions_loop ::
  "(TxPayload \<Rightarrow> Hash) \<Rightarrow> Value list \<Rightarrow> nat \<Rightarrow> Transaction list
   \<Rightarrow> (string + Transaction list) outcome" where
  "Transactions_loop txHash txns i tt =
     (if i < length txns then
        (case read_type_tag txns i of
           Inl err \<Rightarrow> Returned (Inl err)
         | Inr (txType, i1) \<Rightarrow>
             (case newTxPayload txType of
                Inl err \<Rightarrow> Returned (Inl err)
              | Inr payload \<Rightarrow>
                  if i1 < length txns then
                    (case Payload_UnmarshalRLPFrom payload (txns ! i1) of
                       Inl err \<Rightarrow> Returned (Inl err)
                     | Inr payload1 \<Rightarrow>
                         Transactions_loop txHash txns (i1 + 1)
                           (tt @ [Transaction_ComputeHash txHash payload1]))
                  else Panicked ''index out of range''))
      else Returned (Inr tt))"
  by pat_completeness auto

termination
  by (relation "measure (\<lambda>(txHash, txns, i, tt). length txns - i)")
     (auto simp: read_type_tag_def split: if_splits sum.splits)

declare Transactions_loop.simps [simp del]

definition Transactions_UnmarshalRLPFrom ::
  "(TxPayload \<Rightarrow> Hash) \<Rightarrow> Transaction list \<Rightarrow> Value \<Rightarrow> (string + Transaction list) outcome" where
  "Transactions_UnmarshalRLPFrom txHash tt v =
     (case GetElems v of
        Inl err \<Rightarrow> Returned (Inl err)
      | Inr txns \<Rightarrow> Transactions_loop txHash txns 0 tt)"

text \<open>\<^verbatim>\<open>Receipts.UnmarshalRLPFrom\<close>, the same loop over receipts.\<close>

function Receipts_loop ::
  "Value list \<Rightarrow> nat \<Rightarrow> Receipt list \<Rightarrow> (string + Receipt list) outcome" where
  "Receipts_loop elems i r =
     (if i < length elems then
        (case read_type_tag elems i of
           Inl err \<Rightarrow> Returned (Inl err)
         | Inr (txType, i1) \<Rightarrow>
             if i1 < length elems then
               (case Receipt_UnmarshalRLPFrom (zeroReceipt\<lparr>TransactionType := txType\<rparr>)
                       (elems ! i1) of
                  Inl err \<Rightarrow> Returned (Inl err)
                | Inr rr \<Rightarrow> Receipts_loop elems (i1 + 1) (r @ [rr]))
             else Panicked ''index out of range'')
      else Returned (Inr r))"
  by pat_completeness auto

termination
  by (relation "measure (\<lambda>(elems, i, r). length elems - i)")
     (auto simp: read_type_tag_def split: if_splits sum.splits)

declare Receipts_loop.simps [simp del]

definition Receipts_UnmarshalRLPFrom ::
  "Receipt list \<Rightarrow> Value \<Rightarrow> (string + Receipt list) outcome" where
  "Receipts_UnmarshalRLPFrom r v =
     (case GetElems v of
        Inl err \<Rightarrow> Returned (Inl err)
      | Inr elems \<Rightarrow> Receipts_loop elems 0 r)"

subsection \<open>Block\<close>

record Block =
  Header :: "Header option"
  Transactions :: "Transaction list"
  Uncles :: "Header list"

fun Block_uncles :: "(Value \<Rightarrow> Hash) \<Rightarrow> Value list \<Rightarrow> Header list \<Rightarrow> string + Header list" where
  "Block_uncles keccak [] us = Inr us"
| "Block_uncles keccak (uncle # uncles) us =
     and_then (Header_UnmarshalRLPFrom keccak zeroHeader uncle) (\<lambda>bUncle.
       Block_uncles keccak uncles (us @ [bUncle]))"

definition Block_UnmarshalRLPFrom ::
  "(Value \<Rightarrow> Hash) \<Rightarrow> (TxPayload \<Rightarrow> Hash) \<Rightarrow> Block \<Rightarrow> Value \<Rightarrow> (string + Block) outcome" where
  "Block_UnmarshalRLPFrom keccak txHash b v =
     (case GetElems v of
        Inl err \<Rightarrow> Returned (Inl err)
      | Inr elems \<Rightarrow>
          if length elems \<noteq> 3
          then Returned (Inl (''not enough elements to decode block, expected 3 but found ''
                              @ decimal (length elems)))
          else
            (case Header_UnmarshalRLPFrom keccak zeroHeader (elems ! 0) of
               Inl err \<Rightarrow> Returned (Inl err)
             | Inr header \<Rightarrow>
                 (case Transactions_UnmarshalRLPFrom txHash [] (elems ! 1) of
                    Panicked msg \<Rightarrow> Panicked msg
                  | Returned (Inl err) \<Rightarrow> Returned (Inl err)
                  | Returned (Inr txns) \<Rightarrow>
                      Returned
                        (and_then (GetElems (elems ! 2)) (\<lambda>uncles.
                         and_then (Block_uncles keccak uncles (Uncles b)) (\<lambda>us.
                           Inr (b\<lparr>Header := Some header, Transactions := txns,
                                  Uncles := us\<rparr>)))))))"

section \<open>Fork variants of the header extra (consensus/polybft)\<close>

text \<open>
  Modelled from the spec: the struct \<^verbatim>\<open>Extra\<close> (its declaration is not among
  the sources).  It has the shared fields block number, parent signature,
  validator set, checkpoint and committed signature, the two strings of the
  fork variants and the logger that the handlers read.  The signature,
  validator-set and checkpoint types stay parameters; their fields are
  pointers, \<open>None\<close> when nil.  The logger is the list of the messages it is to
  receive, \<open>None\<close> when nil.
\<close>

record ('sig, 'vs, 'cp) Extra =
  Validators :: "'vs option"
  Parent :: "'sig option"
  Committed :: "'sig option"
  Checkpoint :: "'cp option"
  BlockNumber :: uint64
  Dummy1 :: string
  Dummy2 :: string
  Logger :: "string list option"

text \<open>
  \<^verbatim>\<open>ValidateAdditional\<close> of both handlers writes one warning to the logger it
  is given and then checks the strings.  The logger parameter is the list of
  the messages written so far; the result is the returned error, if any, and
  the messages afterwards.
\<close>

definition ExtraHandlerLondon_ValidateAdditional ::
  "('sig, 'vs, 'cp) Extra \<Rightarrow> Header \<Rightarrow> string list \<Rightarrow> string option \<times> string list" where
  "ExtraHandlerLondon_ValidateAdditional extra header logger =
     (let logger1 = logger @ [''ValidateAdditional London style'']
      in if Dummy1 extra = []
         then (Some (''dummy1 is empty for block '' @ decimal (unat (Number header))), logger1)
         else (None, logger1))"

definition ExtraHandlerNikaragva_ValidateAdditional ::
  "('sig, 'vs, 'cp) Extra \<Rightarrow> Header \<Rightarrow> string list \<Rightarrow> string option \<times> string list" where
  "ExtraHandlerNikaragva_ValidateAdditional extra header logger =
     (let logger1 = logger @ [''ValidateAdditional Nikaragva style'']
      in if Dummy1 extra = []
         then (Some (''dummy1 is empty for block '' @ decimal (unat (Number header))), logger1)
         else if Dummy2 extra = []
         then (Some (''dummy2 is empty for block '' @ decimal (unat (Number header))), logger1)
         else (None, logger1))"

text \<open>
  The struct literals that \<^verbatim>\<open>GetIbftExtraClean\<close> builds.  \<open>emptySignature\<close> is
  the value \<^verbatim>\<open>Signature{}\<close>; the fields the literal does not name get their
  zero values.
\<close>

definition London_clean_literal :: "'sig \<Rightarrow> ('sig, 'vs, 'cp) Extra \<Rightarrow> ('sig, 'vs, 'cp) Extra" where
  "London_clean_literal emptySignature extra =
     \<lparr>Validators = Validators extra, Parent = Parent extra, Committed = Some emptySignature,
      Checkpoint = Checkpoint extra, BlockNumber = BlockNumber extra,
      Dummy1 = Dummy1 extra, Dummy2 = [], Logger = None\<rparr>"

definition Nikaragva_clean_literal :: "'sig \<Rightarrow> ('sig, 'vs, 'cp) Extra \<Rightarrow> ('sig, 'vs, 'cp) Extra" where
  "Nikaragva_clean_literal emptySignature extra =
     \<lparr>Validators = Validators extra, Parent = Parent extra, Committed = Some emptySignature,
      Checkpoint = Checkpoint extra, BlockNumber = BlockNumber extra,
      Dummy1 = Dummy1 extra, Dummy2 = Dummy2 extra, Logger = None\<rparr>"

text \<open>
  \<^verbatim>\<open>GetIbftExtraClean\<close> takes a pointer and returns a pointer to a new struct.
  The allocated \<^verbatim>\<open>Extra\<close> structs are a list, a pointer is an index into it
  (\<open>None\<close> is nil) and a new struct goes to the end.  Reading through a nil
  pointer panics.
\<close>

definition ExtraHandlerAdditionalLondon_GetIbftExtraClean ::
  "'sig \<Rightarrow> ('sig, 'vs, 'cp) Extra list \<Rightarrow> nat option
   \<Rightarrow> (('sig, 'vs, 'cp) Extra list \<times> nat option) outcome" where
  "ExtraHandlerAdditionalLondon_GetIbftExtraClean emptySignature heap extra =
     (case extra of
        None \<Rightarrow> Panicked ''nil pointer dereference''
      | Some p \<Rightarrow>
          Returned (heap @ [London_clean_literal emptySignature (heap ! p)], Some (length heap)))"

definition ExtraHandlerAdditionalNikaragva_GetIbftExtraClean ::
  "'sig \<Rightarrow> ('sig, 'vs, 'cp) Extra list \<Rightarrow> nat option
   \<Rightarrow> (('sig, 'vs, 'cp) Extra list \<times> nat option) outcome" where
  "ExtraHandlerAdditionalNikaragva_GetIbftExtraClean emptySignature heap extra =
     (case extra of
        None \<Rightarrow> Panicked ''nil pointer dereference''
      | Some p \<Rightarrow>
          Returned (heap @ [Nikaragva_clean_literal emptySignature (heap ! p)], Some (length heap)))"

text \<open>
  A stream in which every byte string in tag position has an element after
  it: a tag takes the next element as its payload, a list stands alone.
\<close>

fun tags_followed :: "Value list \<Rightarrow> bool" where
  "tags_followed [] = True"
| "tags_followed [Bytes b] = False"
| "tags_followed (Bytes b # payload # rest) = tags_followed rest"
| "tags_followed (Array a # rest) = tags_followed rest"

section \<open>Properties of the fork manager\<close>

lemma copy_slice_shift:
  "index \<le> length s \<Longrightarrow>
   copy_slice (drop (index + 1) (s @ [z])) (drop index (s @ [z])) = drop index s"
  by (simp add: copy_slice_def)

lemma insert_at_eq:
  assumes "index \<le> length s"
  shows "insert_at index x zero s = take index s @ x # drop index s"
proof -
  let ?s1 = "s @ [zero]"
  have a: "take index ?s1 = take index s"
    using assms by simp
  have lt: "index < length ?s1"
    using assms by simp
  have t: "take (index + 1) ?s1 = take index s @ [?s1 ! index]"
    using a take_Suc_conv_app_nth [OF lt] by simp
  have c: "copy_slice (drop (index + 1) ?s1) (drop index ?s1) = drop index s"
    using assms by (simp add: copy_slice_def)
  have "(take index s @ [?s1 ! index] @ drop index s)[index := x] = take index s @ x # drop index s"
    using assms by (simp add: list_update_append)
  then show ?thesis
    unfolding insert_at_def Let_def t c by simp
qed

lemma Search_loop_done: "\<not> i < j \<Longrightarrow> Search_loop f i j = i"
  by (subst Search_loop.simps) simp

lemma Search_loop_right:
  "i < j \<Longrightarrow> \<not> f ((i + j) div 2) \<Longrightarrow> Search_loop f i j = Search_loop f ((i + j) div 2 + 1) j"
  by (subst Search_loop.simps) (simp add: Let_def)

lemma Search_loop_left:
  "i < j \<Longrightarrow> f ((i + j) div 2) \<Longrightarrow> Search_loop f i j = Search_loop f i ((i + j) div 2)"
  by (subst Search_loop.simps) (simp add: Let_def)

lemma Search_loop_bounds:
  "i \<le> j \<Longrightarrow> i \<le> Search_loop f i j \<and> Search_loop f i j \<le> j"
proof (induction f i j rule: Search_loop.induct)
  case (1 f i j)
  show ?case
  proof (cases "i < j")
    case False
    with 1(3) show ?thesis by (simp add: Search_loop_done)
  next
    case True
    let ?h = "(i + j) div 2"
    have h: "i \<le> ?h" "?h < j" using True by auto
    show ?thesis
    proof (cases "f ?h")
      case True
      with 1(2)[OF \<open>i < j\<close> refl] h \<open>i < j\<close> show ?thesis
        by (simp add: Search_loop_left)
    next
      case False
      with 1(1)[OF \<open>i < j\<close> refl] h \<open>i < j\<close> show ?thesis
        by (simp add: Search_loop_right)
    qed
  qed
qed

text \<open>For a predicate that is monotone below n, binary search finds the least index.\<close>

lemma Search_loop_least:
  assumes "i \<le> j" "j \<le> n"
    and "\<forall>k<i. \<not> f k"
    and "\<forall>k. j \<le> k \<and> k < n \<longrightarrow> f k"
    and "\<forall>a b. a \<le> b \<and> b < n \<and> f a \<longrightarrow> f b"
  shows "(\<forall>k < Search_loop f i j. \<not> f k) \<and> (\<forall>k. Search_loop f i j \<le> k \<and> k < n \<longrightarrow> f k)"
  using assms
proof (induction f i j rule: Search_loop.induct)
  case (1 f i j)
  note lo = \<open>\<forall>k<i. \<not> f k\<close> and hi = \<open>\<forall>k. j \<le> k \<and> k < n \<longrightarrow> f k\<close>
    and mono = \<open>\<forall>a b. a \<le> b \<and> b < n \<and> f a \<longrightarrow> f b\<close>
  show ?case
  proof (cases "i < j")
    case False
    then have "Search_loop f i j = i" by (rule Search_loop_done)
    moreover have "i = j" using False \<open>i \<le> j\<close> by simp
    ultimately show ?thesis using lo hi by simp
  next
    case True
    let ?h = "(i + j) div 2"
    have h: "i \<le> ?h" "?h < j" using True by auto
    then have hn: "?h < n" "?h \<le> n" using \<open>j \<le> n\<close> by auto
    show ?thesis
    proof (cases "f ?h")
      case True
      have hi': "\<forall>k. ?h \<le> k \<and> k < n \<longrightarrow> f k"
        using True mono by blast
      have "(\<forall>k < Search_loop f i ?h. \<not> f k) \<and> (\<forall>k. Search_loop f i ?h \<le> k \<and> k < n \<longrightarrow> f k)"
        by (rule 1(2)[OF \<open>i < j\<close> refl _ h(1) hn(2) lo hi' mono]) (simp add: True)
      then show ?thesis
        using Search_loop_left [of i j f] \<open>i < j\<close> True by simp
    next
      case False
      have lo': "\<forall>k<?h + 1. \<not> f k"
      proof (intro allI impI)
        fix k assume "k < ?h + 1"
        then have "k \<le> ?h" by simp
        show "\<not> f k"
        proof
          assume "f k"
          with \<open>k \<le> ?h\<close> hn(1) mono have "f ?h" by blast
          with False show False by simp
        qed
      qed
      have le: "?h + 1 \<le> j" using h by simp
      have "(\<forall>k < Search_loop f (?h + 1) j. \<not> f k) \<and> (\<forall>k. Search_loop f (?h + 1) j \<le> k \<and> k < n \<longrightarrow> f k)"
        by (rule 1(1)[OF \<open>i < j\<close> refl False le \<open>j \<le> n\<close> lo' hi mono])
      then show ?thesis
        using Search_loop_right [of i j f] \<open>i < j\<close> False by simp
    qed
  qed
qed

lemma Search_takeWhile:
  assumes mono: "\<forall>a b. a \<le> b \<and> b < length xs \<and> P (xs ! a) \<longrightarrow> P (xs ! b)"
  shows "Search (length xs) (\<lambda>i. P (xs ! i)) = length (takeWhile (\<lambda>x. \<not> P x) xs)"
proof -
  let ?f = "\<lambda>i. P (xs ! i)"
  let ?r = "Search_loop ?f 0 (length xs)"
  have b: "?r \<le> length xs"
    using Search_loop_bounds [of 0 "length xs" ?f] by simp
  have l: "(\<forall>k < ?r. \<not> ?f k) \<and> (\<forall>k. ?r \<le> k \<and> k < length xs \<longrightarrow> ?f k)"
    by (rule Search_loop_least [of 0 "length xs" "length xs" ?f, OF _ _ _ _ mono]) auto
  have "takeWhile (\<lambda>x. \<not> P x) xs = take ?r xs"
  proof (rule takeWhile_eq_take_P_nth)
    fix i assume "i < ?r" "i < length xs"
    then show "\<not> P (xs ! i)" using l by blast
  next
    assume "?r < length xs"
    then show "\<not> \<not> P (xs ! ?r)" using l by blast
  qed
  then show ?thesis
    using b by (simp add: Search_def)
qed

lemma sorted_key_mono:
  "sorted (map key xs) \<Longrightarrow> a \<le> b \<Longrightarrow> b < length xs \<Longrightarrow> key (xs ! a) \<le> key (xs ! b)"
  using sorted_nth_mono [of "map key xs" a b] by simp

lemma Search_ge_sorted:
  fixes key :: "'a \<Rightarrow> uint64"
  assumes "sorted (map key xs)"
  shows "Search (length xs) (\<lambda>i. key (xs ! i) \<ge> h) = length (takeWhile (\<lambda>x. key x < h) xs)"
proof -
  have m: "\<forall>a b. a \<le> b \<and> b < length xs \<and> h \<le> key (xs ! a) \<longrightarrow> h \<le> key (xs ! b)"
    using sorted_key_mono [OF assms] order_trans by blast
  have "Search (length xs) (\<lambda>i. h \<le> key (xs ! i)) = length (takeWhile (\<lambda>x. \<not> h \<le> key x) xs)"
    by (rule Search_takeWhile [of xs "\<lambda>x. h \<le> key x", OF m])
  then show ?thesis by (simp add: not_le)
qed

lemma Search_gt_sorted:
  fixes key :: "'a \<Rightarrow> uint64"
  assumes "sorted (map key xs)"
  shows "Search (length xs) (\<lambda>i. h < key (xs ! i)) = length (takeWhile (\<lambda>x. key x \<le> h) xs)"
proof -
  have m: "\<forall>a b. a \<le> b \<and> b < length xs \<and> h < key (xs ! a) \<longrightarrow> h < key (xs ! b)"
    using sorted_key_mono [OF assms] less_le_trans by blast
  have "Search (length xs) (\<lambda>i. h < key (xs ! i)) = length (takeWhile (\<lambda>x. \<not> h < key x) xs)"
    by (rule Search_takeWhile [of xs "\<lambda>x. h < key x", OF m])
  then show ?thesis by (simp add: not_less)
qed

text \<open>Inserting at the position found by the search, on a sorted slice.\<close>

lemma insert_sorted_eq:
  fixes key :: "'a \<Rightarrow> uint64"
  assumes "sorted (map key xs)"
  shows "insert_at (Search (length xs) (\<lambda>i. key (xs ! i) \<ge> h)) x zero xs =
         takeWhile (\<lambda>y. key y < h) xs @ x # dropWhile (\<lambda>y. key y < h) xs"
proof -
  let ?r = "length (takeWhile (\<lambda>y. key y < h) xs)"
  have "?r \<le> length xs" by (rule length_takeWhile_le)
  then have "insert_at ?r x zero xs = take ?r xs @ x # drop ?r xs"
    by (rule insert_at_eq)
  then show ?thesis
    by (simp add: Search_ge_sorted [OF assms] takeWhile_eq_take [symmetric] dropWhile_eq_drop [symmetric])
qed

lemma dropWhile_sorted_ge:
  fixes key :: "'a \<Rightarrow> uint64"
  shows "sorted (map key xs) \<Longrightarrow> y \<in> set (dropWhile (\<lambda>y. key y < h) xs) \<Longrightarrow> h \<le> key y"
proof (induction xs)
  case Nil
  then show ?case by simp
next
  case (Cons a xs)
  show ?case
  proof (cases "key a < h")
    case True
    with Cons show ?thesis by simp
  next
    case False
    then have "h \<le> key a" by (simp add: not_less)
    moreover have "y = a \<or> y \<in> set xs" using Cons.prems(2) False by simp
    moreover have "\<forall>z \<in> set xs. key a \<le> key z" using Cons.prems(1) by simp
    ultimately show ?thesis using order_trans by blast
  qed
qed

lemma sorted_insert_key:
  fixes key :: "'a \<Rightarrow> uint64"
  assumes "sorted (map key xs)" and "key x = h"
  shows "sorted (map key (takeWhile (\<lambda>y. key y < h) xs @ x # dropWhile (\<lambda>y. key y < h) xs))"
proof -
  let ?t = "takeWhile (\<lambda>y. key y < h) xs" and ?d = "dropWhile (\<lambda>y. key y < h) xs"
  have t: "\<forall>y \<in> set ?t. key y < h"
    by (auto dest: set_takeWhileD)
  have d: "\<forall>y \<in> set ?d. h \<le> key y"
    using dropWhile_sorted_ge [OF assms(1)] by blast
  have "map key xs = map key ?t @ map key ?d"
    by (simp flip: map_append)
  then have "sorted (map key ?t @ map key ?d)"
    using assms(1) by simp
  then have s: "sorted (map key ?t)" "sorted (map key ?d)"
    unfolding sorted_append by blast+
  have td: "\<forall>a \<in> set ?t. \<forall>b \<in> set ?d. key a \<le> key b"
    using t d by (meson less_imp_le order_trans)
  show ?thesis
    using t d s td assms(2) by (simp add: sorted_append less_imp_le)
qed

lemma takeWhile_le_sorted:
  fixes key :: "'a \<Rightarrow> uint64"
  shows "sorted (map key xs) \<Longrightarrow> takeWhile (\<lambda>x. key x \<le> h) xs = filter (\<lambda>x. key x \<le> h) xs"
proof (induction xs)
  case Nil
  then show ?case by simp
next
  case (Cons a xs)
  show ?case
  proof (cases "key a \<le> h")
    case True
    with Cons show ?thesis by simp
  next
    case False
    have "\<forall>z \<in> set xs. key a \<le> key z" using Cons.prems by simp
    with False have "\<forall>z \<in> set xs. \<not> key z \<le> h" using order_trans by blast
    then have "filter (\<lambda>x. key x \<le> h) xs = []" by (simp add: filter_empty_conv)
    with False show ?thesis by simp
  qed
qed

lemma RegisterFork_forks:
  assumes "sorted (map FromBlockNumber (forks fm))"
  shows "forks (RegisterFork fm name fromBlock) =
         takeWhile (\<lambda>f. FromBlockNumber f < fromBlock) (forks fm)
         @ \<lparr>Name = name, FromBlockNumber = fromBlock\<rparr>
         # dropWhile (\<lambda>f. FromBlockNumber f < fromBlock) (forks fm)"
proof (cases "forks fm = []")
  case True
  then show ?thesis by (simp add: RegisterFork_def Let_def)
next
  case False
  then show ?thesis
    using insert_sorted_eq [OF assms, of fromBlock]
    by (simp add: RegisterFork_def Let_def)
qed

lemma RegisterFork_handlersMap: "handlersMap (RegisterFork fm name fromBlock) = handlersMap fm"
  by (simp add: RegisterFork_def Let_def)

lemma RegisterFork_forkMap:
  "forkMap (RegisterFork fm name fromBlock) =
   (forkMap fm)(name \<mapsto> \<lparr>Name = name, FromBlockNumber = fromBlock\<rparr>)"
  by (simp add: RegisterFork_def Let_def)

lemma RegisterHandler_unknown_fork:
  "forkMap fm forkName = None \<Longrightarrow>
   RegisterHandler fm forkName handlerName handler = Inl (''fork does not exist: '' @ forkName)"
  by (simp add: RegisterHandler_def)

lemma RegisterHandler_first:
  "forkMap fm forkName = Some fork \<Longrightarrow> handlersMap fm handlerName = None \<Longrightarrow>
   RegisterHandler fm forkName handlerName handler =
   Inr (fm\<lparr>handlersMap := (handlersMap fm)(handlerName \<mapsto>
          [\<lparr>HandlerFromBlockNumber = FromBlockNumber fork, Handler = handler\<rparr>])\<rparr>)"
  by (simp add: RegisterHandler_def)

lemma RegisterHandler_insert:
  assumes "forkMap fm forkName = Some fork" and "handlersMap fm handlerName = Some handlers"
    and "sorted (map HandlerFromBlockNumber handlers)"
  shows "RegisterHandler fm forkName handlerName handler =
         Inr (fm\<lparr>handlersMap := (handlersMap fm)(handlerName \<mapsto>
           takeWhile (\<lambda>e. HandlerFromBlockNumber e < FromBlockNumber fork) handlers
           @ \<lparr>HandlerFromBlockNumber = FromBlockNumber fork, Handler = handler\<rparr>
           # dropWhile (\<lambda>e. HandlerFromBlockNumber e < FromBlockNumber fork) handlers)\<rparr>)"
  using assms(1,2) insert_sorted_eq [OF assms(3), of "FromBlockNumber fork"]
  by (simp add: RegisterHandler_def Let_def)

lemma GetHandler_sorted:
  assumes "handlersMap fm name = Some handlers"
    and "sorted (map HandlerFromBlockNumber handlers)"
  shows "GetHandler fm name blockNumber =
         (if filter (\<lambda>e. HandlerFromBlockNumber e \<le> blockNumber) handlers = []
          then Panicked ''index out of range''
          else Returned (Handler (last (filter (\<lambda>e. HandlerFromBlockNumber e \<le> blockNumber) handlers))))"
proof -
  let ?t = "takeWhile (\<lambda>e. HandlerFromBlockNumber e \<le> blockNumber) handlers"
  have f: "filter (\<lambda>e. HandlerFromBlockNumber e \<le> blockNumber) handlers = ?t"
    using takeWhile_le_sorted [OF assms(2)] by simp
  have s: "Search (length handlers) (\<lambda>i. blockNumber < HandlerFromBlockNumber (handlers ! i)) = length ?t"
    by (rule Search_gt_sorted [OF assms(2)])
  have le: "length ?t \<le> length handlers" by (rule length_takeWhile_le)
  show ?thesis
  proof (cases "?t = []")
    case True
    then show ?thesis
      using assms(1) by (simp add: GetHandler_def s f)
  next
    case False
    then have pos: "0 < length ?t" by simp
    have "last ?t = ?t ! (length ?t - 1)" using False by (rule last_conv_nth)
    also have "\<dots> = handlers ! (length ?t - 1)"
      using pos by (simp add: takeWhile_nth)
    finally have l: "last ?t = handlers ! (length ?t - 1)" .
    have n: "nat (int (length ?t) - 1) = length ?t - 1" by simp
    show ?thesis
      using assms(1) False pos le
      by (simp add: GetHandler_def s f l n Let_def del: of_nat_diff nat_diff_distrib)
  qed
qed

lemma registry_sorted_GetInstance: "registry_sorted GetInstance"
  by (simp add: registry_sorted_def GetInstance_def Let_def)

lemma registry_sorted_RegisterFork:
  assumes "registry_sorted fm"
  shows "registry_sorted (RegisterFork fm name fromBlock)"
proof -
  have s: "sorted (map FromBlockNumber (forks fm))"
    using assms by (simp add: registry_sorted_def)
  have "sorted (map FromBlockNumber (forks (RegisterFork fm name fromBlock)))"
    unfolding RegisterFork_forks [OF s]
    by (rule sorted_insert_key [OF s]) simp
  then show ?thesis
    using assms by (simp add: registry_sorted_def RegisterFork_handlersMap)
qed

lemma registry_sorted_RegisterHandler:
  assumes "registry_sorted fm" and "RegisterHandler fm forkName handlerName handler = Inr fm1"
  shows "registry_sorted fm1"
proof (cases "forkMap fm forkName")
  case None
  with assms(2) show ?thesis by (simp add: RegisterHandler_def)
next
  case (Some fork)
  show ?thesis
  proof (cases "handlersMap fm handlerName")
    case None
    then have "fm1 = fm\<lparr>handlersMap := (handlersMap fm)(handlerName \<mapsto>
          [\<lparr>HandlerFromBlockNumber = FromBlockNumber fork, Handler = handler\<rparr>])\<rparr>"
      using assms(2) RegisterHandler_first [OF Some None] by simp
    then show ?thesis
      using assms(1) by (simp add: registry_sorted_def)
  next
    case (Some handlers)
    have s: "sorted (map HandlerFromBlockNumber handlers)"
      using assms(1) Some by (simp add: registry_sorted_def)
    let ?new = "\<lparr>HandlerFromBlockNumber = FromBlockNumber fork, Handler = handler\<rparr>"
    let ?hs = "takeWhile (\<lambda>e. HandlerFromBlockNumber e < FromBlockNumber fork) handlers
           @ ?new # dropWhile (\<lambda>e. HandlerFromBlockNumber e < FromBlockNumber fork) handlers"
    have fm1: "fm1 = fm\<lparr>handlersMap := (handlersMap fm)(handlerName \<mapsto> ?hs)\<rparr>"
      using assms(2) RegisterHandler_insert [OF \<open>forkMap fm forkName = Some fork\<close> Some s] by simp
    have "sorted (map HandlerFromBlockNumber ?hs)"
      by (rule sorted_insert_key [OF s]) simp
    then show ?thesis
      using assms(1) unfolding fm1 registry_sorted_def by simp
  qed
qed

lemma registry_sorted_register: "registry_sorted fm \<Longrightarrow> registry_sorted (register fm r)"
  by (cases r)
     (auto simp: registry_sorted_RegisterFork split: sum.splits
           intro: registry_sorted_RegisterHandler)

lemma startup_snoc: "startup (rs @ [r]) = register (startup rs) r"
  by (simp add: startup_def)

lemma registry_sorted_startup: "registry_sorted (startup rs)"
proof (induction rs rule: rev_induct)
  case Nil
  then show ?case by (simp add: startup_def registry_sorted_GetInstance)
next
  case (snoc r rs)
  then show ?case by (simp add: startup_snoc registry_sorted_register)
qed

lemmas registry_eval =
  startup_def GetInstance_def RegisterFork_def RegisterHandler_def GetHandler_def
  Search_def Search_loop.simps insert_at_def copy_slice_def Let_def BaseFork_def
  zeroFork_def zeroForkHandler_def

lemma fork_order_table:
  "handlersMap (startup (fork_order_startup hb h100 h50 h200)) ''cap'' =
   Some [\<lparr>HandlerFromBlockNumber = 0, Handler = Some hb\<rparr>,
         \<lparr>HandlerFromBlockNumber = 50, Handler = Some h50\<rparr>,
         \<lparr>HandlerFromBlockNumber = 100, Handler = Some h100\<rparr>,
         \<lparr>HandlerFromBlockNumber = 200, Handler = Some h200\<rparr>]"
  by (simp add: fork_order_startup_def registry_eval)

lemma GetHandler_startup:
  assumes "handlersMap (startup rs) name = Some handlers"
  shows "GetHandler (startup rs) name blockNumber =
         (if filter (\<lambda>e. HandlerFromBlockNumber e \<le> blockNumber) handlers = []
          then Panicked ''index out of range''
          else Returned (Handler (last (filter (\<lambda>e. HandlerFromBlockNumber e \<le> blockNumber) handlers))))"
proof -
  have "sorted (map HandlerFromBlockNumber handlers)"
    using registry_sorted_startup [of rs] assms by (simp add: registry_sorted_def)
  with assms show ?thesis by (rule GetHandler_sorted)
qed

lemma last_filter_greatest:
  fixes key :: "'a \<Rightarrow> uint64"
  assumes "sorted (map key xs)" and "filter (\<lambda>e. key e \<le> h) xs \<noteq> []"
  shows "last (filter (\<lambda>e. key e \<le> h) xs) \<in> set xs
         \<and> key (last (filter (\<lambda>e. key e \<le> h) xs)) \<le> h
         \<and> (\<forall>e \<in> set xs. key e \<le> h \<longrightarrow> key e \<le> key (last (filter (\<lambda>e. key e \<le> h) xs)))"
proof -
  let ?f = "filter (\<lambda>e. key e \<le> h) xs"
  have in_f: "last ?f \<in> set ?f" using assms(2) by (rule last_in_set)
  have sf: "sorted (map key ?f)"
    using assms(1) by (simp add: sorted_filter)
  have "\<forall>e \<in> set ?f. key e \<le> key (last ?f)"
  proof
    fix e assume "e \<in> set ?f"
    then obtain i where i: "i < length ?f" "?f ! i = e" by (meson in_set_conv_nth)
    have "key (?f ! i) \<le> key (?f ! (length ?f - 1))"
      by (rule sorted_key_mono [OF sf]) (use i in auto)
    then show "key e \<le> key (last ?f)"
      using i assms(2) by (simp add: last_conv_nth)
  qed
  then show ?thesis using in_f by auto
qed

text \<open>
  C2. With handlers registered for the base fork and for forks activating at
  heights 100, 50 and 200, the lookup at height 75 returns the handler of
  height 50, at height 0 the base handler and at height 250 the handler of
  height 200.  In general, after any start-up sequence, a lookup in an existing
  table returns the handler of the last table entry whose height is at most
  the query height; this entry has the greatest such height.
\<close>

theorem GetHandler_latest_fork:
  "GetHandler (startup (fork_order_startup hb h100 h50 h200)) ''cap'' 75 = Returned (Some h50)
   \<and> GetHandler (startup (fork_order_startup hb h100 h50 h200)) ''cap'' 0 = Returned (Some hb)
   \<and> GetHandler (startup (fork_order_startup hb h100 h50 h200)) ''cap'' 250 = Returned (Some h200)
   \<and> (handlersMap (startup rs) name = Some handlers
        \<and> filter (\<lambda>e. HandlerFromBlockNumber e \<le> blockNumber) handlers \<noteq> [] \<longrightarrow>
        GetHandler (startup rs) name blockNumber =
          Returned (Handler (last (filter (\<lambda>e. HandlerFromBlockNumber e \<le> blockNumber) handlers)))
        \<and> last (filter (\<lambda>e. HandlerFromBlockNumber e \<le> blockNumber) handlers) \<in> set handlers
        \<and> HandlerFromBlockNumber (last (filter (\<lambda>e. HandlerFromBlockNumber e \<le> blockNumber) handlers))
            \<le> blockNumber
        \<and> (\<forall>e \<in> set handlers. HandlerFromBlockNumber e \<le> blockNumber \<longrightarrow>
              HandlerFromBlockNumber e \<le>
              HandlerFromBlockNumber (last (filter (\<lambda>e. HandlerFromBlockNumber e \<le> blockNumber) handlers))))"
proof -
  note t = fork_order_table [of hb h100 h50 h200]
  have a: "GetHandler (startup (fork_order_startup hb h100 h50 h200)) ''cap'' 75 = Returned (Some h50)"
    by (simp add: GetHandler_startup [OF t])
  have b: "GetHandler (startup (fork_order_startup hb h100 h50 h200)) ''cap'' 0 = Returned (Some hb)"
    by (simp add: GetHandler_startup [OF t])
  have c: "GetHandler (startup (fork_order_startup hb h100 h50 h200)) ''cap'' 250 = Returned (Some h200)"
    by (simp add: GetHandler_startup [OF t])
  have d: "GetHandler (startup rs) name blockNumber =
          Returned (Handler (last (filter (\<lambda>e. HandlerFromBlockNumber e \<le> blockNumber) handlers)))
        \<and> last (filter (\<lambda>e. HandlerFromBlockNumber e \<le> blockNumber) handlers) \<in> set handlers
        \<and> HandlerFromBlockNumber (last (filter (\<lambda>e. HandlerFromBlockNumber e \<le> blockNumber) handlers))
            \<le> blockNumber
        \<and> (\<forall>e \<in> set handlers. HandlerFromBlockNumber e \<le> blockNumber \<longrightarrow>
              HandlerFromBlockNumber e \<le>
              HandlerFromBlockNumber (last (filter (\<lambda>e. HandlerFromBlockNumber e \<le> blockNumber) handlers)))"
    if h: "handlersMap (startup rs) name = Some handlers"
      and ne: "filter (\<lambda>e. HandlerFromBlockNumber e \<le> blockNumber) handlers \<noteq> []"
  proof -
    have s: "sorted (map HandlerFromBlockNumber handlers)"
      using registry_sorted_startup [of rs] h by (simp add: registry_sorted_def)
    show ?thesis
      using GetHandler_startup [OF h, of blockNumber] ne last_filter_greatest [OF s ne]
      by simp
  qed
  show ?thesis
    using a b c d by blast
qed

theorem GetHandler_latest_fork_witness:
  "handlersMap (startup (fork_order_startup ''base'' ''h100'' ''h50'' ''h200'')) ''cap'' =
     Some [\<lparr>HandlerFromBlockNumber = 0, Handler = Some ''base''\<rparr>,
           \<lparr>HandlerFromBlockNumber = 50, Handler = Some ''h50''\<rparr>,
           \<lparr>HandlerFromBlockNumber = 100, Handler = Some ''h100''\<rparr>,
           \<lparr>HandlerFromBlockNumber = 200, Handler = Some ''h200''\<rparr>]
   \<and> GetHandler (startup (fork_order_startup ''base'' ''h100'' ''h50'' ''h200'')) ''cap'' 150
       = Returned (Some ''h100'')"
  using GetHandler_latest_fork [of "''base''" "''h100''" "''h50''" "''h200''"
      "fork_order_startup ''base'' ''h100'' ''h50'' ''h200''" "''cap''"
      "[\<lparr>HandlerFromBlockNumber = 0, Handler = Some ''base''\<rparr>,
           \<lparr>HandlerFromBlockNumber = 50, Handler = Some ''h50''\<rparr>,
           \<lparr>HandlerFromBlockNumber = 100, Handler = Some ''h100''\<rparr>,
           \<lparr>HandlerFromBlockNumber = 200, Handler = Some ''h200''\<rparr>]" 150]
  by (simp add: fork_order_table)

text \<open>
  C3 (as amended). After any start-up sequence the fork list and every handler
  table are ascending in the activation height.  A registration is inserted
  at the first position whose height is not smaller than the new one: all
  entries before it have strictly smaller heights, so an entry registered
  earlier with the same height comes after the new entry.
\<close>

theorem registration_sorted_ties_first:
  "sorted (map FromBlockNumber (forks (startup rs)))
   \<and> (handlersMap (startup rs) handlerName = Some handlers \<longrightarrow>
        sorted (map HandlerFromBlockNumber handlers))
   \<and> forks (RegisterFork (startup rs) name fromBlock) =
        takeWhile (\<lambda>f. FromBlockNumber f < fromBlock) (forks (startup rs))
        @ \<lparr>Name = name, FromBlockNumber = fromBlock\<rparr>
        # dropWhile (\<lambda>f. FromBlockNumber f < fromBlock) (forks (startup rs))
   \<and> (\<forall>f \<in> set (dropWhile (\<lambda>f. FromBlockNumber f < fromBlock) (forks (startup rs))).
        fromBlock \<le> FromBlockNumber f)
   \<and> (forkMap (startup rs) forkName = Some fork \<and> handlersMap (startup rs) handlerName = Some handlers \<longrightarrow>
        RegisterHandler (startup rs) forkName handlerName handler =
          Inr ((startup rs)\<lparr>handlersMap := (handlersMap (startup rs))(handlerName \<mapsto>
            takeWhile (\<lambda>e. HandlerFromBlockNumber e < FromBlockNumber fork) handlers
            @ \<lparr>HandlerFromBlockNumber = FromBlockNumber fork, Handler = handler\<rparr>
            # dropWhile (\<lambda>e. HandlerFromBlockNumber e < FromBlockNumber fork) handlers)\<rparr>)
        \<and> (\<forall>e \<in> set (dropWhile (\<lambda>e. HandlerFromBlockNumber e < FromBlockNumber fork) handlers).
              FromBlockNumber fork \<le> HandlerFromBlockNumber e))"
proof -
  have inv: "registry_sorted (startup rs)" by (rule registry_sorted_startup)
  then have s: "sorted (map FromBlockNumber (forks (startup rs)))"
    by (simp add: registry_sorted_def)
  have hs: "sorted (map HandlerFromBlockNumber handlers)"
    if "handlersMap (startup rs) handlerName = Some handlers"
    using inv that by (simp add: registry_sorted_def)
  have d: "\<forall>f \<in> set (dropWhile (\<lambda>f. FromBlockNumber f < fromBlock) (forks (startup rs))).
        fromBlock \<le> FromBlockNumber f"
    using dropWhile_sorted_ge [OF s] by blast
  have r: "RegisterHandler (startup rs) forkName handlerName handler =
          Inr ((startup rs)\<lparr>handlersMap := (handlersMap (startup rs))(handlerName \<mapsto>
            takeWhile (\<lambda>e. HandlerFromBlockNumber e < FromBlockNumber fork) handlers
            @ \<lparr>HandlerFromBlockNumber = FromBlockNumber fork, Handler = handler\<rparr>
            # dropWhile (\<lambda>e. HandlerFromBlockNumber e < FromBlockNumber fork) handlers)\<rparr>)
        \<and> (\<forall>e \<in> set (dropWhile (\<lambda>e. HandlerFromBlockNumber e < FromBlockNumber fork) handlers).
              FromBlockNumber fork \<le> HandlerFromBlockNumber e)"
    if f: "forkMap (startup rs) forkName = Some fork"
      and h: "handlersMap (startup rs) handlerName = Some handlers"
    using RegisterHandler_insert [OF f h hs [OF h]] dropWhile_sorted_ge [OF hs [OF h]]
    by blast
  show ?thesis
    using s hs RegisterFork_forks [OF s] d r by blast
qed

theorem registration_sorted_ties_first_witness:
  "forkMap (startup [RegFork ''x'' 7, RegHandler BaseFork ''cap'' (Some ''h0''),
                     RegHandler ''x'' ''cap'' (Some ''h7'')]) BaseFork
     = Some \<lparr>Name = BaseFork, FromBlockNumber = 0\<rparr>
   \<and> handlersMap (startup [RegFork ''x'' 7, RegHandler BaseFork ''cap'' (Some ''h0''),
                     RegHandler ''x'' ''cap'' (Some ''h7'')]) ''cap''
     = Some [\<lparr>HandlerFromBlockNumber = 0, Handler = Some ''h0''\<rparr>,
             \<lparr>HandlerFromBlockNumber = 7, Handler = Some ''h7''\<rparr>]
   \<and> map_option (\<lambda>fm. handlersMap fm ''cap'')
        (case RegisterHandler (startup [RegFork ''x'' 7, RegHandler BaseFork ''cap'' (Some ''h0''),
                     RegHandler ''x'' ''cap'' (Some ''h7'')]) BaseFork ''cap'' (Some ''h1'')
         of Inl e \<Rightarrow> None | Inr fm \<Rightarrow> Some fm)
     = Some (Some [\<lparr>HandlerFromBlockNumber = 0, Handler = Some ''h1''\<rparr>,
             \<lparr>HandlerFromBlockNumber = 0, Handler = Some ''h0''\<rparr>,
             \<lparr>HandlerFromBlockNumber = 7, Handler = Some ''h7''\<rparr>])
   \<and> forks (RegisterFork (startup [RegFork ''x'' 7, RegHandler BaseFork ''cap'' (Some ''h0''),
                     RegHandler ''x'' ''cap'' (Some ''h7'')]) ''y'' 7)
     = [\<lparr>Name = BaseFork, FromBlockNumber = 0\<rparr>, \<lparr>Name = ''y'', FromBlockNumber = 7\<rparr>,
        \<lparr>Name = ''x'', FromBlockNumber = 7\<rparr>]"
  using registration_sorted_ties_first
    [of "[RegFork ''x'' 7, RegHandler BaseFork ''cap'' (Some ''h0''),
          RegHandler ''x'' ''cap'' (Some ''h7'')]"
        "''cap''"
        "[\<lparr>HandlerFromBlockNumber = 0, Handler = Some ''h0''\<rparr>,
          \<lparr>HandlerFromBlockNumber = 7, Handler = Some ''h7''\<rparr>]"
        "''y''" 7 BaseFork "\<lparr>Name = BaseFork, FromBlockNumber = 0\<rparr>" "Some ''h1''"]
  by (simp add: registry_eval)

text \<open>
  The tie-break of C3 as the specification words it fails: of two forks (or
  two handlers) registered with the same height, the later one is placed
  before the earlier one.
\<close>

theorem ties_later_first_counterexample:
  "map Name (forks (startup [RegFork ''a'' 5, RegFork ''b'' 5] :: string forkManager))
     = [''basev1'', ''b'', ''a'']
   \<and> handlersMap (startup [RegFork ''a'' 5, RegFork ''b'' 5,
         RegHandler ''a'' ''cap'' (Some ''first''), RegHandler ''b'' ''cap'' (Some ''second'')]) ''cap''
     = Some [\<lparr>HandlerFromBlockNumber = 5, Handler = Some ''second''\<rparr>,
             \<lparr>HandlerFromBlockNumber = 5, Handler = Some ''first''\<rparr>]"
  by (simp add: registry_eval)

text \<open>
  C4. A lookup for a capability without a handler table panics: it returns no
  handler.  No table exists for a capability that no registration of the
  start-up sequence names.  An unknown fork name makes \<^verbatim>\<open>RegisterHandler\<close> and
  \<^verbatim>\<open>GetForkBlock\<close> return an error value.
\<close>

theorem GetHandler_unregistered_panics:
  "(handlersMap fm name = None \<longrightarrow>
      GetHandler fm name blockNumber = Panicked (''handlers not registered for '' @ name))
   \<and> ((\<forall>forkName handler. RegHandler forkName name handler \<notin> set rs) \<longrightarrow>
      GetHandler (startup rs) name blockNumber = Panicked (''handlers not registered for '' @ name))
   \<and> (forkMap fm forkName = None \<longrightarrow>
      RegisterHandler fm forkName handlerName handler = Inl (''fork does not exist: '' @ forkName)
      \<and> GetForkBlock fm forkName = Inl (''fork does not exists: '' @ forkName))"
proof -
  have n: "(\<forall>forkName handler. RegHandler forkName name handler \<notin> set rs) \<Longrightarrow>
           handlersMap (startup rs) name = None"
  proof (induction rs rule: rev_induct)
    case Nil
    then show ?case by (simp add: startup_def GetInstance_def Let_def)
  next
    case (snoc r rs)
    then have ih: "handlersMap (startup rs) name = None" by simp
    show ?case
    proof (cases r)
      case (RegFork x y)
      then show ?thesis using ih by (simp add: startup_snoc RegisterFork_handlersMap)
    next
      case (RegHandler fn hn h)
      with snoc.prems have "hn \<noteq> name" by auto
      then show ?thesis
        using ih RegHandler
        by (auto simp: startup_snoc RegisterHandler_def Let_def split: sum.splits option.splits)
    qed
  qed
  show ?thesis
    using n by (auto simp: GetHandler_def RegisterHandler_def GetForkBlock_def)
qed

theorem GetHandler_unregistered_panics_witness:
  "handlersMap (startup [RegFork ''london'' 10, RegHandler ''london'' ''extra'' (Some ''h'')]) ''other'' = None
   \<and> GetHandler (startup [RegFork ''london'' 10, RegHandler ''london'' ''extra'' (Some ''h'')]) ''other'' 3
       = Panicked ''handlers not registered for other''
   \<and> forkMap (startup [RegFork ''london'' 10, RegHandler ''london'' ''extra'' (Some ''h'')]) ''berlin'' = None
   \<and> RegisterHandler (startup [RegFork ''london'' 10, RegHandler ''london'' ''extra'' (Some ''h'')])
        ''berlin'' ''extra'' (Some ''g'') = Inl ''fork does not exist: berlin''"
  using GetHandler_unregistered_panics
    [of "startup [RegFork ''london'' 10, RegHandler ''london'' ''extra'' (Some ''h'')]" "''other''" 3
        "[RegFork ''london'' 10, RegHandler ''london'' ''extra'' (Some ''h'')]" "''berlin''"
        "''extra''" "Some ''g''"]
  by (simp add: registry_eval)

section \<open>Properties of the decoders\<close>

subsection \<open>Big-endian numbers\<close>

lemma be_nat_snoc: "be_nat (bs @ [b]) = be_nat bs * 256 + unat b"
  by (simp add: be_nat_def)

lemma be_nat_Nil: "be_nat [] = 0"
  by (simp add: be_nat_def)

lemma be_nat_zeros: "be_nat (replicate k 0) = 0"
proof (induction k)
  case 0
  then show ?case by (simp add: be_nat_Nil)
next
  case (Suc k)
  have "replicate (Suc k) (0::byte) = replicate k 0 @ [0]"
    by (simp add: replicate_append_same)
  then show ?case using Suc by (simp only: be_nat_snoc) simp
qed

lemma be_nat_append: "be_nat (as @ bs) = be_nat as * 256 ^ length bs + be_nat bs"
proof (induction bs rule: rev_induct)
  case Nil
  then show ?case by (simp add: be_nat_Nil)
next
  case (snoc b bs)
  have "be_nat (as @ bs @ [b]) = be_nat (as @ bs) * 256 + unat b"
    using be_nat_snoc [of "as @ bs" b] by simp
  then show ?case
    by (simp add: snoc be_nat_snoc algebra_simps)
qed

lemma be_nat_pad: "be_nat (replicate k 0 @ bs) = be_nat bs"
  by (simp add: be_nat_append be_nat_zeros)

lemma be_nat_bound: "be_nat bs < 256 ^ length bs"
proof (induction bs rule: rev_induct)
  case Nil
  then show ?case by (simp add: be_nat_Nil)
next
  case (snoc b bs)
  have "unat b < 256" using unsigned_less [of b] by simp
  moreover have "be_nat bs + 1 \<le> 256 ^ length bs" using snoc by simp
  then have "(be_nat bs + 1) * 256 \<le> 256 ^ length bs * 256" by (rule mult_le_mono1)
  ultimately show ?case by (simp add: be_nat_snoc)
qed

lemma be_nat_uint_bytes: "be_nat (uint_bytes n) = n"
proof (induction n rule: uint_bytes.induct)
  case (1 n)
  show ?case
  proof (cases "n = 0")
    case True
    then show ?thesis by (simp add: uint_bytes.simps be_nat_Nil)
  next
    case False
    have "unat (of_nat (n mod 256) :: byte) = n mod 256"
      by (simp add: unat_of_nat)
    moreover have "uint_bytes n = uint_bytes (n div 256) @ [of_nat (n mod 256)]"
      using False by (subst uint_bytes.simps) simp
    ultimately show ?thesis
      using 1 [OF False] by (simp add: be_nat_snoc)
  qed
qed

lemma length_uint_bytes: "n < 256 ^ k \<Longrightarrow> length (uint_bytes n) \<le> k"
proof (induction n arbitrary: k rule: uint_bytes.induct)
  case (1 n)
  show ?case
  proof (cases "n = 0")
    case True
    then show ?thesis by (simp add: uint_bytes.simps)
  next
    case False
    then obtain k' where k: "k = Suc k'" using "1.prems" by (cases k) auto
    have "n div 256 < 256 ^ k'"
      using "1.prems" k by (simp add: less_mult_imp_div_less mult.commute)
    then have "length (uint_bytes (n div 256)) \<le> k'"
      by (rule 1(1) [OF False])
    moreover have "uint_bytes n = uint_bytes (n div 256) @ [of_nat (n mod 256)]"
      using False by (subst uint_bytes.simps) simp
    ultimately show ?thesis using k by simp
  qed
qed

lemma be_nat_digit:
  "i < length bs \<Longrightarrow> be_nat bs div 256 ^ (length bs - Suc i) mod 256 = unat (bs ! i)"
proof (induction bs rule: rev_induct)
  case Nil
  then show ?case by simp
next
  case (snoc b bs)
  have ub: "unat b < 256" using unsigned_less [of b] by simp
  show ?case
  proof (cases "i = length bs")
    case True
    then show ?thesis using ub by (simp add: be_nat_snoc)
  next
    case False
    then have i: "i < length bs" using snoc.prems by simp
    then have e: "length bs - i = Suc (length bs - Suc i)" by simp
    have "(be_nat bs * 256 + unat b) div 256 ^ (length bs - i)
          = (be_nat bs * 256 + unat b) div 256 div 256 ^ (length bs - Suc i)"
      unfolding e by (simp add: div_mult2_eq)
    also have "(be_nat bs * 256 + unat b) div 256 = be_nat bs"
      using ub by simp
    finally show ?thesis
      using snoc.IH [OF i] i by (simp add: be_nat_snoc nth_append)
  qed
qed

lemma PutUint64_be_nat:
  assumes "length bs = 8"
  shows "PutUint64 (of_nat (be_nat bs)) = bs"
proof -
  have "be_nat bs < 256 ^ 8" using be_nat_bound [of bs] assms by simp
  then have u: "unat (of_nat (be_nat bs) :: uint64) = be_nat bs"
    by (simp add: unat_of_nat)
  show ?thesis
  proof (rule nth_equalityI)
    show "length (PutUint64 (of_nat (be_nat bs))) = length bs"
      using assms by (simp add: PutUint64_def)
  next
    fix i assume "i < length (PutUint64 (of_nat (be_nat bs)))"
    then have i: "i < 8" by (simp add: PutUint64_def)
    then have "be_nat bs div 256 ^ (7 - i) mod 256 = unat (bs ! i)"
      using be_nat_digit [of i bs] assms by simp
    then show "PutUint64 (of_nat (be_nat bs)) ! i = bs ! i"
      using i by (simp add: PutUint64_def u del: upt_Suc)
  qed
qed

subsection \<open>Header round trip\<close>

lemma GetUint64_uint_bytes: "GetUint64 (Bytes (uint_bytes (unat (w :: uint64)))) = Inr w"
proof -
  have "unat w < 256 ^ 8" using unsigned_less [of w] by simp
  then have "length (uint_bytes (unat w)) \<le> 8" by (rule length_uint_bytes)
  then show ?thesis by (simp add: be_nat_pad be_nat_uint_bytes)
qed

lemma GetUint64_nonce: "length bs = 8 \<Longrightarrow> GetUint64 (Bytes bs) = Inr (of_nat (be_nat bs))"
  by (simp add: be_nat_pad)

lemma GetHash_sized: "length b = 32 \<Longrightarrow> length buf = 32 \<Longrightarrow> GetHash (Bytes b) buf = Inr b"
  by (simp add: GetHash_def append_into_def)

lemma GetAddr_sized: "length b = 20 \<Longrightarrow> length buf = 20 \<Longrightarrow> GetAddr (Bytes b) buf = Inr b"
  by (simp add: GetAddr_def append_into_def)

lemma GetBytes_sized:
  "length b = n \<Longrightarrow> length buf = n \<Longrightarrow> GetBytes (Bytes b) buf (Some n) = Inr (b, b)"
  by (simp add: append_into_def)

lemma GetBytes_unsized: "GetBytes (Bytes b) buf None = Inr (b, append_into buf b)"
  by simp

lemma Header_roundtrip:
  assumes "wf_Header h" and "wf_Header h0"
  shows "Header_UnmarshalRLPFrom keccak h0 (Header_MarshalRLPWith h)
         = Inr (h\<lparr>Hash := keccak (Header_MarshalRLPWith h)\<rparr>)"
proof -
  have n: "PutUint64 (of_nat (be_nat (Nonce h))) = Nonce h"
    using assms(1) by (simp add: PutUint64_be_nat wf_Header_def)
  have "Header_fields keccak h0
          [Bytes (ParentHash h), Bytes (Sha3Uncles h), Bytes (Miner h), Bytes (StateRoot h),
            Bytes (TxRoot h), Bytes (ReceiptsRoot h), Bytes (LogsBloom h),
            Bytes (uint_bytes (unat (Difficulty h))), Bytes (uint_bytes (unat (Number h))),
            Bytes (uint_bytes (unat (GasLimit h))), Bytes (uint_bytes (unat (GasUsed h))),
            Bytes (uint_bytes (unat (Timestamp h))),
            Bytes (ExtraData h), Bytes (MixHash h), Bytes (Nonce h)]
        = Inr (h\<lparr>Hash := keccak (Header_MarshalRLPWith h)\<rparr>)"
    using assms
    unfolding Header_fields_def wf_Header_def
    by (simp add: GetHash_sized GetAddr_sized GetBytes_sized GetUint64_uint_bytes GetUint64_nonce
        GetBytes_unsized n ComputeHash_def SetNonce_def Header_MarshalRLPWith_def
        del: GetUint64.simps GetBytes.simps)
  then show ?thesis
    by (simp add: Header_UnmarshalRLPFrom_def Header_MarshalRLPWith_def)
qed

text \<open>
  C1. For a header \<open>h\<close> whose arrays have their widths, decoding the encoding
  of \<open>h\<close> into any such receiver succeeds; the result has the fifteen
  encoded fields of \<open>h\<close>, \<open>MixHash\<close> among them, and its cached hash is the
  hash of the encoding of \<open>h\<close>.  The encoding does not depend on the cached
  hash, so the cached hash is also the hash of the encoding of the result.
\<close>

theorem Header_decode_encode:
  "wf_Header h \<and> wf_Header h0 \<longrightarrow>
     Header_UnmarshalRLPFrom keccak h0 (Header_MarshalRLPWith h)
       = Inr (h\<lparr>Hash := keccak (Header_MarshalRLPWith h)\<rparr>)
     \<and> MixHash (h\<lparr>Hash := keccak (Header_MarshalRLPWith h)\<rparr>) = MixHash h
     \<and> Hash (h\<lparr>Hash := keccak (Header_MarshalRLPWith h)\<rparr>) = keccak (Header_MarshalRLPWith h)
     \<and> Header_MarshalRLPWith (h\<lparr>Hash := keccak (Header_MarshalRLPWith h)\<rparr>)
         = Header_MarshalRLPWith h"
  using Header_roundtrip [of h h0 keccak]
  by (simp add: Header_MarshalRLPWith_def)

theorem Header_decode_encode_witness:
  "wf_Header (zeroHeader\<lparr>Number := 1000, ExtraData := [1, 2, 3], MixHash := replicate 32 9,
                Nonce := [0, 0, 0, 0, 0, 0, 1, 2]\<rparr>)
   \<and> wf_Header zeroHeader
   \<and> Header_UnmarshalRLPFrom (\<lambda>v. replicate 32 7) zeroHeader
        (Header_MarshalRLPWith (zeroHeader\<lparr>Number := 1000, ExtraData := [1, 2, 3],
           MixHash := replicate 32 9, Nonce := [0, 0, 0, 0, 0, 0, 1, 2]\<rparr>))
      = Inr (zeroHeader\<lparr>Number := 1000, ExtraData := [1, 2, 3], MixHash := replicate 32 9,
                Nonce := [0, 0, 0, 0, 0, 0, 1, 2], Hash := replicate 32 7\<rparr>)"
  using Header_decode_encode
    [of "zeroHeader\<lparr>Number := 1000, ExtraData := [1, 2, 3], MixHash := replicate 32 9,
                Nonce := [0, 0, 0, 0, 0, 0, 1, 2]\<rparr>" zeroHeader "\<lambda>v. replicate 32 7"]
  by (simp add: wf_Header_def zeroHeader_def)

section \<open>Properties of the fork variants\<close>

text \<open>
  C8. The london handler returns an error exactly when \<open>Dummy1\<close> is empty,
  the nikaragva handler exactly when \<open>Dummy1\<close> or \<open>Dummy2\<close> is empty.
\<close>

theorem ValidateAdditional_error_iff:
  "(fst (ExtraHandlerLondon_ValidateAdditional extra header logger) \<noteq> None) = (Dummy1 extra = [])
   \<and> (fst (ExtraHandlerNikaragva_ValidateAdditional extra header logger) \<noteq> None)
       = (Dummy1 extra = [] \<or> Dummy2 extra = [])"
  by (simp add: ExtraHandlerLondon_ValidateAdditional_def
      ExtraHandlerNikaragva_ValidateAdditional_def Let_def)

text \<open>
  C9 (as amended). Each variant's clean operation returns a pointer to a new
  struct and leaves every struct allocated before as it was.  The new struct
  has the block number, parent, validators and checkpoint of the input and
  the empty signature as committed signature.  The london variant copies
  \<open>Dummy1\<close> and leaves \<open>Dummy2\<close> empty; the nikaragva variant copies both
  strings.  Neither copies the logger.
\<close>

theorem GetIbftExtraClean_copies_own_fields:
  "p < length heap \<longrightarrow>
     ExtraHandlerAdditionalLondon_GetIbftExtraClean emptySignature heap (Some p)
       = Returned (heap @ [(heap ! p)\<lparr>Committed := Some emptySignature, Dummy2 := [],
                                      Logger := None\<rparr>], Some (length heap))
     \<and> ExtraHandlerAdditionalNikaragva_GetIbftExtraClean emptySignature heap (Some p)
       = Returned (heap @ [(heap ! p)\<lparr>Committed := Some emptySignature, Logger := None\<rparr>],
                   Some (length heap))
     \<and> (\<forall>q < length heap. \<forall>x. (heap @ [x]) ! q = heap ! q)"
  by (simp add: ExtraHandlerAdditionalLondon_GetIbftExtraClean_def
      ExtraHandlerAdditionalNikaragva_GetIbftExtraClean_def
      London_clean_literal_def Nikaragva_clean_literal_def nth_append)

theorem GetIbftExtraClean_copies_own_fields_witness:
  "(0::nat) < length [\<lparr>Validators = Some ''vs'', Parent = Some ''ps'', Committed = Some ''cs'',
                       Checkpoint = Some ''cp'', BlockNumber = 7, Dummy1 = ''a'',
                       Dummy2 = ''b'', Logger = None\<rparr>]
   \<and> ExtraHandlerAdditionalNikaragva_GetIbftExtraClean ''''
        [\<lparr>Validators = Some ''vs'', Parent = Some ''ps'', Committed = Some ''cs'',
          Checkpoint = Some ''cp'', BlockNumber = 7, Dummy1 = ''a'', Dummy2 = ''b'',
          Logger = None\<rparr>] (Some 0)
      = Returned ([\<lparr>Validators = Some ''vs'', Parent = Some ''ps'', Committed = Some ''cs'',
                     Checkpoint = Some ''cp'', BlockNumber = 7, Dummy1 = ''a'', Dummy2 = ''b'',
                     Logger = None\<rparr>,
                   \<lparr>Validators = Some ''vs'', Parent = Some ''ps'', Committed = Some '''',
                     Checkpoint = Some ''cp'', BlockNumber = 7, Dummy1 = ''a'', Dummy2 = ''b'',
                     Logger = None\<rparr>], Some 1)"
  using GetIbftExtraClean_copies_own_fields
    [of 0 "[\<lparr>Validators = Some ''vs'', Parent = Some ''ps'', Committed = Some ''cs'',
             Checkpoint = Some ''cp'', BlockNumber = 7, Dummy1 = ''a'', Dummy2 = ''b'',
             Logger = None\<rparr>]" "''''"]
  by simp

text \<open>
  The london variant does not preserve a \<open>Dummy2\<close> present on its input: the
  copy has the empty string.
\<close>

theorem London_clean_drops_Dummy2_counterexample:
  "ExtraHandlerAdditionalLondon_GetIbftExtraClean ''''
     [\<lparr>Validators = Some ''vs'', Parent = Some ''ps'', Committed = Some ''cs'',
       Checkpoint = Some ''cp'', BlockNumber = 7, Dummy1 = ''a'', Dummy2 = ''b'',
       Logger = None\<rparr>] (Some 0)
   = Returned ([\<lparr>Validators = Some ''vs'', Parent = Some ''ps'', Committed = Some ''cs'',
                  Checkpoint = Some ''cp'', BlockNumber = 7, Dummy1 = ''a'', Dummy2 = ''b'',
                  Logger = None\<rparr>,
                \<lparr>Validators = Some ''vs'', Parent = Some ''ps'', Committed = Some '''',
                  Checkpoint = Some ''cp'', BlockNumber = 7, Dummy1 = ''a'', Dummy2 = '''',
                  Logger = None\<rparr>], Some 1)"
  by (simp add: ExtraHandlerAdditionalLondon_GetIbftExtraClean_def London_clean_literal_def)

section \<open>Properties of the object decoders\<close>

subsection \<open>Arity\<close>

text \<open>
  A list whose element count differs from the arity of the object makes its
  decoder fail.  The error of the header, block, legacy transaction and typed
  transaction decoders names the expected count (15, 3, 9, 7) and the count
  found; the error of the receipt decoder names the expected count 4 only;
  the error of the log decoder is \<open>bad elems\<close>.
\<close>

lemma arity_errors:
  "(length elems \<noteq> 15 \<longrightarrow>
      Header_UnmarshalRLPFrom keccak h (Array elems)
        = Inl (''not enough elements to decode header, expected 15 but found ''
               @ decimal (length elems)))
   \<and> (length elems \<noteq> 3 \<longrightarrow>
      Block_UnmarshalRLPFrom keccak txHash b (Array elems)
        = Returned (Inl (''not enough elements to decode block, expected 3 but found ''
                         @ decimal (length elems))))
   \<and> (length elems \<noteq> 9 \<longrightarrow>
      LegacyTransaction_UnmarshalRLPFrom lt (Array elems)
        = Inl (''not enough elements to decode transaction, expected 9 but found ''
               @ decimal (length elems)))
   \<and> (length elems \<noteq> 7 \<longrightarrow>
      StateTransaction_UnmarshalRLPFrom st (Array elems)
        = Inl (''not enough elements to decode transaction, expected 7 but found ''
               @ decimal (length elems)))
   \<and> (length elems \<noteq> 4 \<longrightarrow>
      Receipt_UnmarshalRLPFrom r (Array elems) = Inl ''expected 4 elements'')
   \<and> (length elems \<noteq> 3 \<longrightarrow>
      Log_UnmarshalRLPFrom l (Array elems) = Inl ''bad elems'')"
  by (simp add: Header_UnmarshalRLPFrom_def Block_UnmarshalRLPFrom_def
      LegacyTransaction_UnmarshalRLPFrom_def StateTransaction_UnmarshalRLPFrom_def
      Receipt_UnmarshalRLPFrom_def Log_UnmarshalRLPFrom_def)

lemma arity_errors_examples:
  "Header_UnmarshalRLPFrom (\<lambda>v. []) zeroHeader (Array (replicate 14 (Bytes [])))
     = Inl ''not enough elements to decode header, expected 15 but found 14''
   \<and> Header_UnmarshalRLPFrom (\<lambda>v. []) zeroHeader (Array (replicate 16 (Bytes [])))
     = Inl ''not enough elements to decode header, expected 15 but found 16''
   \<and> Block_UnmarshalRLPFrom (\<lambda>v. []) (\<lambda>p. []) \<lparr>Header = None, Transactions = [], Uncles = []\<rparr>
        (Array (replicate 16 (Bytes [])))
     = Returned (Inl ''not enough elements to decode block, expected 3 but found 16'')
   \<and> LegacyTransaction_UnmarshalRLPFrom zeroLegacyTransaction (Array (replicate 16 (Bytes [])))
     = Inl ''not enough elements to decode transaction, expected 9 but found 16''
   \<and> StateTransaction_UnmarshalRLPFrom zeroStateTransaction (Array (replicate 16 (Bytes [])))
     = Inl ''not enough elements to decode transaction, expected 7 but found 16''
   \<and> Receipt_UnmarshalRLPFrom zeroReceipt (Array (replicate 16 (Bytes [])))
     = Inl ''expected 4 elements''
   \<and> Log_UnmarshalRLPFrom zeroLog (Array (replicate 16 (Bytes []))) = Inl ''bad elems''"
  using arity_errors [of "replicate 16 (Bytes [])" "\<lambda>v. []" zeroHeader "\<lambda>p. []"
      "\<lparr>Header = None, Transactions = [], Uncles = []\<rparr>" zeroLegacyTransaction
      zeroStateTransaction zeroReceipt zeroLog]
    arity_errors [of "replicate 14 (Bytes [])" "\<lambda>v. []" zeroHeader "\<lambda>p. []"
      "\<lparr>Header = None, Transactions = [], Uncles = []\<rparr>" zeroLegacyTransaction
      zeroStateTransaction zeroReceipt zeroLog]
  by (simp add: decimal.simps digit_def)

text \<open>
  C5. On a list of two elements the log decoder fails with the error
  \<open>bad elems\<close>, which does not name the expected count 3, whereas the header
  decoder on a list of fourteen elements fails with an error that names its
  expected count 15.
\<close>

theorem Log_arity_error_names_no_count:
  "Log_UnmarshalRLPFrom zeroLog (Array [Bytes [], Array []]) = Inl ''bad elems''
   \<and> \<not> sublist ''3'' ''bad elems''
   \<and> Header_UnmarshalRLPFrom (\<lambda>v. []) zeroHeader (Array (replicate 14 (Bytes [])))
       = Inl ''not enough elements to decode header, expected 15 but found 14''
   \<and> sublist ''15'' ''not enough elements to decode header, expected 15 but found 14''"
proof -
  have "sublist ''15'' (''not enough elements to decode header, expected '' @ ''15''
                        @ '' but found 14'')"
    by (rule sublist_appendI)
  then show ?thesis
    by (simp add: Log_UnmarshalRLPFrom_def Header_UnmarshalRLPFrom_def sublist_Cons_right
        decimal.simps digit_def)
qed

subsection \<open>Receipt status\<close>

lemma Receipt_UnmarshalRLPFrom_four:
  "Receipt_UnmarshalRLPFrom r (Array [Bytes buf, e1, e2, e3])
   = Receipt_rest (Receipt_root_or_status r buf) [Bytes buf, e1, e2, e3]"
  by (simp add: Receipt_UnmarshalRLPFrom_def)

lemma Receipt_rest_ok:
  assumes "GetUint64 e1 = Inr gas"
    and "GetBytes e2 (ReceiptLogsBloom r) (Some 256) = Inr (s, bloom)"
    and "GetElems e3 = Inr logsElems"
    and "Receipt_logs logsElems (Logs r) = Inr logs"
  shows "Receipt_rest r [e0, e1, e2, e3]
         = Inr (r\<lparr>CumulativeGasUsed := gas, ReceiptLogsBloom := bloom, Logs := logs\<rparr>)"
  using assms by (simp add: Receipt_rest_def)

text \<open>
  C7. When the other three fields of a receipt decode, a first field that is
  neither 32 nor 1 byte long makes the decoder succeed with the status set to
  zero; a first field of 32 bytes sets the root and one of 1 byte sets the
  status to that byte.
\<close>

theorem Receipt_status_fallback:
  "GetUint64 e1 = Inr gas
   \<and> GetBytes e2 (ReceiptLogsBloom r) (Some 256) = Inr (s, bloom)
   \<and> GetElems e3 = Inr logsElems
   \<and> Receipt_logs logsElems (Logs r) = Inr logs \<longrightarrow>
     (length buf \<noteq> 32 \<and> length buf \<noteq> 1 \<longrightarrow>
        Receipt_UnmarshalRLPFrom r (Array [Bytes buf, e1, e2, e3])
          = Inr (r\<lparr>CumulativeGasUsed := gas, ReceiptLogsBloom := bloom, Logs := logs,
                   Status := Some 0\<rparr>))
     \<and> (length buf = 32 \<and> length (Root r) = 32 \<longrightarrow>
        Receipt_UnmarshalRLPFrom r (Array [Bytes buf, e1, e2, e3])
          = Inr (r\<lparr>CumulativeGasUsed := gas, ReceiptLogsBloom := bloom, Logs := logs,
                   Root := buf\<rparr>))
     \<and> (length buf = 1 \<longrightarrow>
        Receipt_UnmarshalRLPFrom r (Array [Bytes buf, e1, e2, e3])
          = Inr (r\<lparr>CumulativeGasUsed := gas, ReceiptLogsBloom := bloom, Logs := logs,
                   Status := Some (buf ! 0)\<rparr>))"
proof (intro impI)
  assume a: "GetUint64 e1 = Inr gas
   \<and> GetBytes e2 (ReceiptLogsBloom r) (Some 256) = Inr (s, bloom)
   \<and> GetElems e3 = Inr logsElems
   \<and> Receipt_logs logsElems (Logs r) = Inr logs"
  have rest: "Receipt_rest r1 [Bytes buf, e1, e2, e3]
      = Inr (r1\<lparr>CumulativeGasUsed := gas, ReceiptLogsBloom := bloom, Logs := logs\<rparr>)"
    if "ReceiptLogsBloom r1 = ReceiptLogsBloom r" and "Logs r1 = Logs r" for r1
    using a that Receipt_rest_ok [of e1 gas e2 r1 s bloom e3 logsElems logs "Bytes buf"] by simp
  have 1: "Receipt_UnmarshalRLPFrom r (Array [Bytes buf, e1, e2, e3])
          = Inr (r\<lparr>CumulativeGasUsed := gas, ReceiptLogsBloom := bloom, Logs := logs,
                   Status := Some 0\<rparr>)"
    if "length buf \<noteq> 32 \<and> length buf \<noteq> 1"
    using that rest [of "SetStatus r 0"]
    by (simp add: Receipt_UnmarshalRLPFrom_four Receipt_root_or_status_def SetStatus_def)
  have 2: "Receipt_UnmarshalRLPFrom r (Array [Bytes buf, e1, e2, e3])
          = Inr (r\<lparr>CumulativeGasUsed := gas, ReceiptLogsBloom := bloom, Logs := logs,
                   Root := buf\<rparr>)"
    if "length buf = 32 \<and> length (Root r) = 32"
    using that rest [of "r\<lparr>Root := buf\<rparr>"]
    by (simp add: Receipt_UnmarshalRLPFrom_four Receipt_root_or_status_def copy_slice_def)
  have 3: "Receipt_UnmarshalRLPFrom r (Array [Bytes buf, e1, e2, e3])
          = Inr (r\<lparr>CumulativeGasUsed := gas, ReceiptLogsBloom := bloom, Logs := logs,
                   Status := Some (buf ! 0)\<rparr>)"
    if "length buf = 1"
    using that rest [of "SetStatus r (buf ! 0)"]
    by (simp add: Receipt_UnmarshalRLPFrom_four Receipt_root_or_status_def SetStatus_def)
  show "(length buf \<noteq> 32 \<and> length buf \<noteq> 1 \<longrightarrow>
        Receipt_UnmarshalRLPFrom r (Array [Bytes buf, e1, e2, e3])
          = Inr (r\<lparr>CumulativeGasUsed := gas, ReceiptLogsBloom := bloom, Logs := logs,
                   Status := Some 0\<rparr>))
     \<and> (length buf = 32 \<and> length (Root r) = 32 \<longrightarrow>
        Receipt_UnmarshalRLPFrom r (Array [Bytes buf, e1, e2, e3])
          = Inr (r\<lparr>CumulativeGasUsed := gas, ReceiptLogsBloom := bloom, Logs := logs,
                   Root := buf\<rparr>))
     \<and> (length buf = 1 \<longrightarrow>
        Receipt_UnmarshalRLPFrom r (Array [Bytes buf, e1, e2, e3])
          = Inr (r\<lparr>CumulativeGasUsed := gas, ReceiptLogsBloom := bloom, Logs := logs,
                   Status := Some (buf ! 0)\<rparr>))"
    using 1 2 3 by blast
qed

theorem Receipt_status_fallback_witness:
  "GetUint64 (Bytes [1, 0]) = Inr 256
   \<and> GetBytes (Bytes (replicate 256 0)) (ReceiptLogsBloom zeroReceipt) (Some 256)
       = Inr (replicate 256 0, replicate 256 0)
   \<and> GetElems (Array []) = Inr []
   \<and> Receipt_logs [] (Logs zeroReceipt) = Inr []
   \<and> length [1, 2, 3 :: byte] \<noteq> 32 \<and> length [1, 2, 3 :: byte] \<noteq> 1
   \<and> Receipt_UnmarshalRLPFrom zeroReceipt
        (Array [Bytes [1, 2, 3], Bytes [1, 0], Bytes (replicate 256 0), Array []])
       = Inr (zeroReceipt\<lparr>CumulativeGasUsed := 256, Status := Some 0\<rparr>)"
  using Receipt_status_fallback
    [of "Bytes [1, 0]" 256 "Bytes (replicate 256 0)" zeroReceipt "replicate 256 0"
        "replicate 256 0" "Array []" "[]" "[]" "[1, 2, 3]"]
  by (simp add: zeroReceipt_def be_nat_pad append_into_def) (simp add: be_nat_def)

subsection \<open>Collections of transactions and receipts\<close>

lemma newTxPayload_of_ToTransactionType:
  "ToTransactionType b = Inr t \<Longrightarrow>
   newTxPayload t = Inr (if t = TxTypeLegacy then Legacy zeroLegacyTransaction
                         else State zeroStateTransaction)"
  by (auto simp: ToTransactionType_def newTxPayload_def split: if_splits)

lemma read_type_tag_array:
  "Type (elems ! i) = TypeArray \<Longrightarrow> read_type_tag elems i = Inr (TxTypeLegacy, i)"
  by (simp add: read_type_tag_def)

lemma read_type_tag_bytes:
  "elems ! i = Bytes [b] \<Longrightarrow>
   read_type_tag elems i = (case ToTransactionType b of Inl err \<Rightarrow> Inl err | Inr t \<Rightarrow> Inr (t, i + 1))"
  by (simp add: read_type_tag_def TransactionType_UnmarshalRLPFrom_def)

lemma read_type_tag_error:
  "Type (elems ! i) = TypeBytes \<Longrightarrow> TransactionType_UnmarshalRLPFrom (elems ! i) = Inl err \<Longrightarrow>
   read_type_tag elems i = Inl err"
  by (simp add: read_type_tag_def)

lemma Transactions_loop_done:
  "\<not> i < length txns \<Longrightarrow> Transactions_loop txHash txns i tt = Returned (Inr tt)"
  by (subst Transactions_loop.simps) simp

lemma Transactions_loop_step:
  "i < length txns \<Longrightarrow> read_type_tag txns i = Inr (txType, i1) \<Longrightarrow>
   newTxPayload txType = Inr payload \<Longrightarrow>
   Transactions_loop txHash txns i tt =
     (if i1 < length txns then
        (case Payload_UnmarshalRLPFrom payload (txns ! i1) of
           Inl err \<Rightarrow> Returned (Inl err)
         | Inr payload1 \<Rightarrow>
             Transactions_loop txHash txns (i1 + 1) (tt @ [Transaction_ComputeHash txHash payload1]))
      else Panicked ''index out of range'')"
  by (subst Transactions_loop.simps) simp

lemma Transactions_loop_tag_error:
  "i < length txns \<Longrightarrow> read_type_tag txns i = Inl err \<Longrightarrow>
   Transactions_loop txHash txns i tt = Returned (Inl err)"
  by (subst Transactions_loop.simps) simp

lemma Transactions_loop_payload_error:
  "i < length txns \<Longrightarrow> read_type_tag txns i = Inr (txType, i1) \<Longrightarrow>
   newTxPayload txType = Inl err \<Longrightarrow>
   Transactions_loop txHash txns i tt = Returned (Inl err)"
  by (subst Transactions_loop.simps) simp

lemma Receipts_loop_done:
  "\<not> i < length elems \<Longrightarrow> Receipts_loop elems i r = Returned (Inr r)"
  by (subst Receipts_loop.simps) simp

lemma Receipts_loop_step:
  "i < length elems \<Longrightarrow> read_type_tag elems i = Inr (txType, i1) \<Longrightarrow>
   Receipts_loop elems i r =
     (if i1 < length elems then
        (case Receipt_UnmarshalRLPFrom (zeroReceipt\<lparr>TransactionType := txType\<rparr>) (elems ! i1) of
           Inl err \<Rightarrow> Returned (Inl err)
         | Inr rr \<Rightarrow> Receipts_loop elems (i1 + 1) (r @ [rr]))
      else Panicked ''index out of range'')"
  by (subst Receipts_loop.simps) simp

lemma Receipts_loop_tag_error:
  "i < length elems \<Longrightarrow> read_type_tag elems i = Inl err \<Longrightarrow>
   Receipts_loop elems i r = Returned (Inl err)"
  by (subst Receipts_loop.simps) simp

lemma tags_followed_step:
  assumes "i < length elems" and "tags_followed (drop i elems)"
    and "read_type_tag elems i = Inr (txType, i1)"
  shows "i1 < length elems \<and> tags_followed (drop (i1 + 1) elems)"
proof (cases "elems ! i")
  case (Array a)
  then have "i1 = i" using assms(3) by (simp add: read_type_tag_def)
  moreover have "drop i elems = Array a # drop (Suc i) elems"
    using assms(1) Array by (simp add: Cons_nth_drop_Suc [symmetric])
  ultimately show ?thesis using assms(1,2) by simp
next
  case (Bytes b)
  then have i1: "i1 = i + 1"
    using assms(3) by (auto simp: read_type_tag_def split: sum.splits)
  have d: "drop i elems = Bytes b # drop (Suc i) elems"
    using assms(1) Bytes by (simp add: Cons_nth_drop_Suc [symmetric])
  show ?thesis
  proof (cases "drop (Suc i) elems")
    case Nil
    with d assms(2) show ?thesis by simp
  next
    case (Cons p rest)
    then have lt: "Suc i < length elems" by (metis drop_eq_Nil2 list.distinct(1) not_le)
    then have "drop (Suc i) elems = elems ! Suc i # drop (Suc (Suc i)) elems"
      by (simp add: Cons_nth_drop_Suc [symmetric])
    with Cons have "rest = drop (Suc (Suc i)) elems" by simp
    then show ?thesis using d Cons assms(2) lt i1 by simp
  qed
qed

lemma Transactions_loop_no_panic:
  "tags_followed (drop i txns) \<Longrightarrow> Transactions_loop txHash txns i tt \<noteq> Panicked msg"
proof (induction txHash txns i tt rule: Transactions_loop.induct)
  case (1 txHash txns i tt)
  show ?case
  proof (cases "i < length txns")
    case False
    then show ?thesis by (simp add: Transactions_loop_done)
  next
    case True
    show ?thesis
    proof (cases "read_type_tag txns i")
      case (Inl err)
      with True show ?thesis by (simp add: Transactions_loop_tag_error)
    next
      case (Inr x)
      obtain txType i1 where x: "x = (txType, i1)" by (cases x)
      with Inr have r: "read_type_tag txns i = Inr (txType, i1)" by simp
      have f: "i1 < length txns" "tags_followed (drop (i1 + 1) txns)"
        using tags_followed_step [OF True "1.prems" r] by simp_all
      show ?thesis
      proof (cases "newTxPayload txType")
        case (Inl err)
        with True r show ?thesis by (simp add: Transactions_loop_payload_error)
      next
        case np: (Inr payload)
        show ?thesis
        proof (cases "Payload_UnmarshalRLPFrom payload (txns ! i1)")
          case (Inl err)
          with True r np f show ?thesis by (simp add: Transactions_loop_step)
        next
          case (Inr payload1)
          have "Transactions_loop txHash txns (i1 + 1)
                  (tt @ [Transaction_ComputeHash txHash payload1]) \<noteq> Panicked msg"
            using "1.IH" [OF True r refl np f(1) Inr f(2)] .
          with True r np f Inr show ?thesis by (simp add: Transactions_loop_step)
        qed
      qed
    qed
  qed
qed

lemma Receipts_loop_no_panic:
  "tags_followed (drop i elems) \<Longrightarrow> Receipts_loop elems i r \<noteq> Panicked msg"
proof (induction elems i r rule: Receipts_loop.induct)
  case (1 elems i r)
  show ?case
  proof (cases "i < length elems")
    case False
    then show ?thesis by (simp add: Receipts_loop_done)
  next
    case True
    show ?thesis
    proof (cases "read_type_tag elems i")
      case (Inl err)
      with True show ?thesis by (simp add: Receipts_loop_tag_error)
    next
      case (Inr x)
      obtain txType i1 where x: "x = (txType, i1)" by (cases x)
      with Inr have rt: "read_type_tag elems i = Inr (txType, i1)" by simp
      have f: "i1 < length elems" "tags_followed (drop (i1 + 1) elems)"
        using tags_followed_step [OF True "1.prems" rt] by simp_all
      show ?thesis
      proof (cases "Receipt_UnmarshalRLPFrom (zeroReceipt\<lparr>TransactionType := txType\<rparr>) (elems ! i1)")
        case (Inl err)
        with True rt f show ?thesis by (simp add: Receipts_loop_step)
      next
        case (Inr rr)
        have "Receipts_loop elems (i1 + 1) (r @ [rr]) \<noteq> Panicked msg"
          using "1.IH" [OF True rt refl f(1) Inr f(2)] .
        with True rt f Inr show ?thesis by (simp add: Receipts_loop_step)
      qed
    qed
  qed
qed

lemma Transactions_loop_array:
  assumes "i < length txns" and "Type (txns ! i) = TypeArray"
  shows "Transactions_loop txHash txns i tt =
         (case LegacyTransaction_UnmarshalRLPFrom zeroLegacyTransaction (txns ! i) of
            Inl err \<Rightarrow> Returned (Inl err)
          | Inr t \<Rightarrow>
              Transactions_loop txHash txns (i + 1)
                (tt @ [Transaction_ComputeHash txHash (Legacy t)]))"
proof -
  have n: "newTxPayload TxTypeLegacy = Inr (Legacy zeroLegacyTransaction)"
    by (simp add: newTxPayload_def)
  show ?thesis
    using assms(1)
    by (simp add: Transactions_loop_step [OF assms(1) read_type_tag_array [OF assms(2)] n]
        split: sum.splits)
qed

lemma LegacyTransaction_decoded_is_array:
  "LegacyTransaction_UnmarshalRLPFrom t0 l = Inr t \<Longrightarrow> Type l = TypeArray"
  by (cases l) (simp_all add: LegacyTransaction_UnmarshalRLPFrom_def)

text \<open>
  C6. A stream of a legacy transaction list, the one-byte string \<open>0x02\<close> and
  a typed transaction list decodes to exactly two transactions, the legacy one
  and the typed one, whose type is \<open>0x02\<close>.  At every position of the loop, an
  element that is a list is decoded in place as a legacy transaction.
\<close>

theorem Transactions_legacy_then_typed:
  "(LegacyTransaction_UnmarshalRLPFrom zeroLegacyTransaction l = Inr lt
    \<and> StateTransaction_UnmarshalRLPFrom zeroStateTransaction s = Inr st \<longrightarrow>
      Transactions_UnmarshalRLPFrom txHash [] (Array [l, Bytes [2], s])
        = Returned (Inr [Transaction_ComputeHash txHash (Legacy lt),
                         Transaction_ComputeHash txHash (State st)])
      \<and> payloadType (Payload (Transaction_ComputeHash txHash (State st))) = 2)
   \<and> (i < length txns \<and> Type (txns ! i) = TypeArray \<longrightarrow>
      Transactions_loop txHash txns i tt =
        (case LegacyTransaction_UnmarshalRLPFrom zeroLegacyTransaction (txns ! i) of
           Inl err \<Rightarrow> Returned (Inl err)
         | Inr t \<Rightarrow>
             Transactions_loop txHash txns (i + 1)
               (tt @ [Transaction_ComputeHash txHash (Legacy t)])))"
proof -
  have stream: "Transactions_UnmarshalRLPFrom txHash [] (Array [l, Bytes [2], s])
        = Returned (Inr [Transaction_ComputeHash txHash (Legacy lt),
                         Transaction_ComputeHash txHash (State st)])"
    if dl: "LegacyTransaction_UnmarshalRLPFrom zeroLegacyTransaction l = Inr lt"
      and ds: "StateTransaction_UnmarshalRLPFrom zeroStateTransaction s = Inr st"
  proof -
    let ?txns = "[l, Bytes [2], s]"
    have a: "Type (?txns ! 0) = TypeArray"
      using LegacyTransaction_decoded_is_array [OF dl] by simp
    have s0: "Transactions_loop txHash ?txns 0 [] =
              Transactions_loop txHash ?txns 1 [Transaction_ComputeHash txHash (Legacy lt)]"
      using Transactions_loop_array [of 0 ?txns txHash "[]"] a dl by simp
    have tag: "read_type_tag ?txns 1 = Inr (TxTypeState, 2)"
      by (simp add: read_type_tag_bytes ToTransactionType_def TxTypeState_def TxTypeLegacy_def)
    have np: "newTxPayload TxTypeState = Inr (State zeroStateTransaction)"
      by (simp add: newTxPayload_def TxTypeState_def TxTypeLegacy_def)
    have s1: "Transactions_loop txHash ?txns 1 [Transaction_ComputeHash txHash (Legacy lt)] =
              Transactions_loop txHash ?txns 3 [Transaction_ComputeHash txHash (Legacy lt),
                 Transaction_ComputeHash txHash (State st)]"
      using Transactions_loop_step [of 1 ?txns TxTypeState 2 "State zeroStateTransaction" txHash
          "[Transaction_ComputeHash txHash (Legacy lt)]"] tag np ds
      by simp
    have s3: "Transactions_loop txHash ?txns 3 [Transaction_ComputeHash txHash (Legacy lt),
                 Transaction_ComputeHash txHash (State st)]
              = Returned (Inr [Transaction_ComputeHash txHash (Legacy lt),
                 Transaction_ComputeHash txHash (State st)])"
      by (simp add: Transactions_loop_done)
    have "Transactions_loop txHash ?txns 0 []
          = Returned (Inr [Transaction_ComputeHash txHash (Legacy lt),
                           Transaction_ComputeHash txHash (State st)])"
      by (simp only: s0 s1 s3)
    then show ?thesis
      by (simp add: Transactions_UnmarshalRLPFrom_def)
  qed
  have ty: "payloadType (Payload (Transaction_ComputeHash txHash (State st))) = 2"
    by (simp add: Transaction_ComputeHash_def TxTypeState_def)
  show ?thesis
    using stream ty Transactions_loop_array [of i txns txHash tt] by blast
qed

theorem Transactions_legacy_then_typed_witness:
  "LegacyTransaction_UnmarshalRLPFrom zeroLegacyTransaction
     (Array [Bytes [1], Bytes [2], Bytes [3], Bytes (replicate 20 5), Bytes [4], Bytes [],
             Bytes [27], Bytes [6], Bytes [7]])
     = Inr \<lparr>legacy_Nonce = 1, legacy_GasPrice = Some 2, legacy_Gas = 3,
            legacy_To = Some (replicate 20 5), legacy_Value = Some 4, legacy_Input = [],
            legacy_V = Some 27, legacy_R = Some 6, legacy_S = Some 7\<rparr>
   \<and> StateTransaction_UnmarshalRLPFrom zeroStateTransaction
     (Array [Bytes [1], Bytes [], Bytes [9], Array [Bytes [1, 2]], Bytes [27], Bytes [6],
             Bytes [7]])
     = Inr \<lparr>state_Nonce = 1, state_To = None, state_Input = [9], state_Signatures = [[1, 2]],
            state_V = Some 27, state_R = Some 6, state_S = Some 7\<rparr>
   \<and> Transactions_UnmarshalRLPFrom (\<lambda>p. replicate 32 0) []
     (Array [Array [Bytes [1], Bytes [2], Bytes [3], Bytes (replicate 20 5), Bytes [4], Bytes [],
                    Bytes [27], Bytes [6], Bytes [7]],
             Bytes [2],
             Array [Bytes [1], Bytes [], Bytes [9], Array [Bytes [1, 2]], Bytes [27], Bytes [6],
                    Bytes [7]]])
     = Returned (Inr
        [\<lparr>Payload = Legacy \<lparr>legacy_Nonce = 1, legacy_GasPrice = Some 2, legacy_Gas = 3,
            legacy_To = Some (replicate 20 5), legacy_Value = Some 4, legacy_Input = [],
            legacy_V = Some 27, legacy_R = Some 6, legacy_S = Some 7\<rparr>,
           TxHash = replicate 32 0\<rparr>,
         \<lparr>Payload = State \<lparr>state_Nonce = 1, state_To = None, state_Input = [9],
            state_Signatures = [[1, 2]], state_V = Some 27, state_R = Some 6,
            state_S = Some 7\<rparr>,
           TxHash = replicate 32 0\<rparr>])"
proof -
  have l: "LegacyTransaction_UnmarshalRLPFrom zeroLegacyTransaction
     (Array [Bytes [1], Bytes [2], Bytes [3], Bytes (replicate 20 5), Bytes [4], Bytes [],
             Bytes [27], Bytes [6], Bytes [7]])
     = Inr \<lparr>legacy_Nonce = 1, legacy_GasPrice = Some 2, legacy_Gas = 3,
            legacy_To = Some (replicate 20 5), legacy_Value = Some 4, legacy_Input = [],
            legacy_V = Some 27, legacy_R = Some 6, legacy_S = Some 7\<rparr>"
    by (simp add: LegacyTransaction_UnmarshalRLPFrom_def zeroLegacyTransaction_def recipient_def
        be_nat_pad append_into_def) (simp add: be_nat_def)
  have s: "StateTransaction_UnmarshalRLPFrom zeroStateTransaction
     (Array [Bytes [1], Bytes [], Bytes [9], Array [Bytes [1, 2]], Bytes [27], Bytes [6],
             Bytes [7]])
     = Inr \<lparr>state_Nonce = 1, state_To = None, state_Input = [9], state_Signatures = [[1, 2]],
            state_V = Some 27, state_R = Some 6, state_S = Some 7\<rparr>"
    by (simp add: StateTransaction_UnmarshalRLPFrom_def zeroStateTransaction_def recipient_def
        be_nat_pad append_into_def) (simp add: be_nat_def)
  show ?thesis
    using l s Transactions_legacy_then_typed
      [of "Array [Bytes [1], Bytes [2], Bytes [3], Bytes (replicate 20 5), Bytes [4], Bytes [],
             Bytes [27], Bytes [6], Bytes [7]]"
          "\<lparr>legacy_Nonce = 1, legacy_GasPrice = Some 2, legacy_Gas = 3,
            legacy_To = Some (replicate 20 5), legacy_Value = Some 4, legacy_Input = [],
            legacy_V = Some 27, legacy_R = Some 6, legacy_S = Some 7\<rparr>"
          "Array [Bytes [1], Bytes [], Bytes [9], Array [Bytes [1, 2]], Bytes [27], Bytes [6],
             Bytes [7]]"
          "\<lparr>state_Nonce = 1, state_To = None, state_Input = [9], state_Signatures = [[1, 2]],
            state_V = Some 27, state_R = Some 6, state_S = Some 7\<rparr>"
          "\<lambda>p. replicate 32 0"]
    by (simp add: Transaction_ComputeHash_def TxTypeState_def)
qed

text \<open>
  C10 (as amended). In both collection decoders, a one-byte string in tag
  position that names a transaction kind advances the index, and the payload
  is read at the next index without a check: when this tag is the last
  element of the stream, the read is out of bounds and the decoder panics.
  A byte string in tag position that is no valid tag makes the decoder return
  an error, whatever follows.  The loop does not panic on a stream in which
  every byte string in tag position is followed by an element.
\<close>

theorem collection_tag_without_payload:
  "(i < length elems \<and> i + 1 = length elems \<and> elems ! i = Bytes [b]
      \<and> ToTransactionType b = Inr t \<longrightarrow>
      Transactions_loop txHash elems i tt = Panicked ''index out of range''
      \<and> Receipts_loop elems i r = Panicked ''index out of range'')
   \<and> (i < length elems \<and> Type (elems ! i) = TypeBytes
      \<and> TransactionType_UnmarshalRLPFrom (elems ! i) = Inl err \<longrightarrow>
      Transactions_loop txHash elems i tt = Returned (Inl err)
      \<and> Receipts_loop elems i r = Returned (Inl err))
   \<and> (tags_followed (drop i elems) \<longrightarrow>
      Transactions_loop txHash elems i tt \<noteq> Panicked msg
      \<and> Receipts_loop elems i r \<noteq> Panicked msg)"
proof -
  have panic: "Transactions_loop txHash elems i tt = Panicked ''index out of range''
      \<and> Receipts_loop elems i r = Panicked ''index out of range''"
    if h: "i < length elems" "i + 1 = length elems" "elems ! i = Bytes [b]"
      "ToTransactionType b = Inr t"
  proof -
    have tag: "read_type_tag elems i = Inr (t, i + 1)"
      using h(3,4) by (simp add: read_type_tag_bytes)
    note np = newTxPayload_of_ToTransactionType [OF h(4)]
    have "Transactions_loop txHash elems i tt = Panicked ''index out of range''"
      using Transactions_loop_step [OF h(1) tag np] h(2) by simp
    moreover have "Receipts_loop elems i r = Panicked ''index out of range''"
      using Receipts_loop_step [OF h(1) tag] h(2) by simp
    ultimately show ?thesis by simp
  qed
  have error: "Transactions_loop txHash elems i tt = Returned (Inl err)
      \<and> Receipts_loop elems i r = Returned (Inl err)"
    if h: "i < length elems" "Type (elems ! i) = TypeBytes"
      "TransactionType_UnmarshalRLPFrom (elems ! i) = Inl err"
    using Transactions_loop_tag_error [OF h(1) read_type_tag_error [OF h(2,3)]]
      Receipts_loop_tag_error [OF h(1) read_type_tag_error [OF h(2,3)]]
    by simp
  have total: "Transactions_loop txHash elems i tt \<noteq> Panicked msg
      \<and> Receipts_loop elems i r \<noteq> Panicked msg"
    if "tags_followed (drop i elems)"
    using that Transactions_loop_no_panic Receipts_loop_no_panic by blast
  show ?thesis
    using panic error total by blast
qed

theorem collection_tag_without_payload_witness:
  "ToTransactionType 2 = Inr 2
   \<and> Transactions_loop (\<lambda>p. []) [Bytes [2]] 0 [] = Panicked ''index out of range''
   \<and> Receipts_loop [Bytes [2]] 0 [] = Panicked ''index out of range''
   \<and> TransactionType_UnmarshalRLPFrom ([Bytes [], Array []] ! 0)
       = Inl ''expected 1 byte transaction type, but size is 0''
   \<and> Transactions_loop (\<lambda>p. []) [Bytes [], Array []] 0 []
       = Returned (Inl ''expected 1 byte transaction type, but size is 0'')
   \<and> Receipts_loop [Bytes [], Array []] 0 []
       = Returned (Inl ''expected 1 byte transaction type, but size is 0'')
   \<and> tags_followed (drop 0 [Bytes [2], Array []])
   \<and> Transactions_loop (\<lambda>p. []) [Bytes [2], Array []] 0 [] \<noteq> Panicked ''index out of range''
   \<and> Receipts_loop [Bytes [2], Array []] 0 [] \<noteq> Panicked ''index out of range''"
proof -
  have t: "ToTransactionType 2 = Inr 2"
    by (simp add: ToTransactionType_def TxTypeState_def TxTypeLegacy_def)
  have e: "TransactionType_UnmarshalRLPFrom ([Bytes [], Array []] ! 0)
       = Inl ''expected 1 byte transaction type, but size is 0''"
    by (simp add: TransactionType_UnmarshalRLPFrom_def decimal.simps digit_def)
  show ?thesis
    using t e
      collection_tag_without_payload [of 0 "[Bytes [2]]" 2 2 "\<lambda>p. []" "[]" "[]"]
      collection_tag_without_payload [of 0 "[Bytes [], Array []]" _ _ "\<lambda>p. []" "[]" "[]"
        "''expected 1 byte transaction type, but size is 0''"]
      collection_tag_without_payload [of 0 "[Bytes [2], Array []]" _ _ "\<lambda>p. []" "[]" "[]" _
        "''index out of range''"]
    by simp
qed

text \<open>
  A stream can end in a byte string that nothing follows without any read
  out of bounds: a two-byte string in tag position is rejected as a type tag
  and both decoders return this error.
\<close>

theorem final_bytes_atom_counterexample:
  "\<not> tags_followed [Bytes [1, 2]]
   \<and> Transactions_UnmarshalRLPFrom (\<lambda>p. []) [] (Array [Bytes [1, 2]])
       = Returned (Inl ''expected 1 byte transaction type, but size is 2'')
   \<and> Receipts_UnmarshalRLPFrom [] (Array [Bytes [1, 2]])
       = Returned (Inl ''expected 1 byte transaction type, but size is 2'')"
  by (simp add: Transactions_UnmarshalRLPFrom_def Receipts_UnmarshalRLPFrom_def
      Transactions_loop.simps Receipts_loop.simps read_type_tag_def
      TransactionType_UnmarshalRLPFrom_def decimal.simps digit_def)

end
